theory Spec2Isabelle
  imports Main "HOL-Library.AList"
begin

section \<open>Strings and numbers of the download handler\<close>

text \<open>
  The handler under \<^verbatim>\<open>pages/api\<close> works on JavaScript strings and numbers. Strings are
  modelled as \<^typ>\<open>string\<close>, millisecond clock readings, counters and sizes as
  \<^typ>\<open>int\<close> (all values stay far below \<open>2^53\<close>, where JavaScript numbers are exact
  integers).
\<close>

primrec startsWith :: "string \<Rightarrow> string \<Rightarrow> bool" where
  "startsWith s [] = True"
| "startsWith s (p # ps) = (case s of [] \<Rightarrow> False | c # cs \<Rightarrow> c = p \<and> startsWith cs ps)"

definition endsWith :: "string \<Rightarrow> string \<Rightarrow> bool" where
  "endsWith s p = startsWith (rev s) (rev p)"

primrec str_includes :: "string \<Rightarrow> string \<Rightarrow> bool" where
  "str_includes [] p = (p = [])"
| "str_includes (c # cs) p = (startsWith (c # cs) p \<or> str_includes cs p)"

definition lowerChar :: "char \<Rightarrow> char" where
  "lowerChar c =
     (case map_of (zip ''ABCDEFGHIJKLMNOPQRSTUVWXYZ'' ''abcdefghijklmnopqrstuvwxyz'') c of
        Some d \<Rightarrow> d
      | None \<Rightarrow> c)"

definition toLowerCase :: "string \<Rightarrow> string" where
  "toLowerCase s = map lowerChar s"

function digits :: "nat \<Rightarrow> string" where
  "digits n =
     (if n < 10 then [''0123456789'' ! n]
      else digits (n div 10) @ [''0123456789'' ! (n mod 10)])"
  by pat_completeness auto
termination
  by (relation "measure id") auto

declare digits.simps [simp del]

text \<open>A number inside a template literal.\<close>

definition showInt :: "int \<Rightarrow> string" where
  "showInt i = (if i < 0 then CHR ''-'' # digits (nat (- i)) else digits (nat i))"

text \<open>\<^verbatim>\<open>Array.prototype.join\<close> on strings.\<close>

fun join :: "string \<Rightarrow> string list \<Rightarrow> string" where
  "join sep [] = []"
| "join sep [x] = x"
| "join sep (x # y # ys) = x @ sep @ join sep (y # ys)"

text \<open>\<^verbatim>\<open>Math.ceil(x / 1000)\<close> on an integer \<open>x\<close>.\<close>

definition ceilDiv :: "int \<Rightarrow> int \<Rightarrow> int" where
  "ceilDiv x d = - ((- x) div d)"

text \<open>
  Thrown values: an \<^verbatim>\<open>Error\<close> with its message, or the \<^verbatim>\<open>undefined\<close> that
  \<^verbatim>\<open>throw lastError!\<close> throws when no attempt ever ran.
\<close>

datatype exn = Error string | Undefined

section \<open>Configuration\<close>

definition windowMs :: int where
  "windowMs = 15 * 60 * 1000"

definition maxRequests :: int where
  "maxRequests = 5"

definition maxConcurrent :: int where
  "maxConcurrent = 3"

definition cache_ttl :: int where
  "cache_ttl = 2 * 60 * 60"

definition cache_maxSize :: int where
  "cache_maxSize = 100"

definition maxFileSizeMB :: int where
  "maxFileSizeMB = 100"

definition config_maxRetries :: nat where
  "config_maxRetries = 2"

definition config_retryDelay :: int where
  "config_retryDelay = 3000"

definition allowedDomains :: "string list" where
  "allowedDomains =
     [''youtube.com'', ''youtu.be'', ''instagram.com'', ''facebook.com'',
      ''twitter.com'', ''x.com'', ''tiktok.com'', ''twitch.tv'']"

definition config_downloadTimeoutMs :: int where
  "config_downloadTimeoutMs = 5 * 60 * 1000"

section \<open>The two caches\<close>

text \<open>
  \<^verbatim>\<open>rateLimitCache\<close> and \<^verbatim>\<open>videoCache\<close> are instances of the \<^verbatim>\<open>node-cache\<close> package,
  which is a dependency and not part of the repository. The model keeps what the handler
  relies on: a cache is an association list from keys to a value and the instant its
  entry expires (\<open>0\<close>: never); \<^verbatim>\<open>get\<close> deletes and misses an entry whose expiry lies
  before the clock reading; \<^verbatim>\<open>set\<close> stores the value with expiry \<open>now + ttl * 1000\<close>
  and, for a cache built with \<^verbatim>\<open>maxKeys\<close>, throws once that many keys are stored.
\<close>

type_synonym 'v nodecache = "(string \<times> ('v \<times> int)) list"

definition nc_get :: "int \<Rightarrow> 'v nodecache \<Rightarrow> string \<Rightarrow> 'v option \<times> 'v nodecache" where
  "nc_get now c k =
     (case map_of c k of
        None \<Rightarrow> (None, c)
      | Some (v, t) \<Rightarrow>
          if t = 0 then (Some v, c)
          else if t < now then (None, AList.delete k c)
          else (Some v, c))"

definition nc_put :: "int \<Rightarrow> int \<Rightarrow> 'v nodecache \<Rightarrow> string \<Rightarrow> 'v \<Rightarrow> 'v nodecache" where
  "nc_put ttl now c k v = AList.update k (v, if ttl = 0 then 0 else now + ttl * 1000) c"

definition nc_set ::
  "int \<Rightarrow> int \<Rightarrow> int \<Rightarrow> 'v nodecache \<Rightarrow> string \<Rightarrow> 'v \<Rightarrow> exn + 'v nodecache" where
  "nc_set ttl maxKeys now c k v =
     (if - 1 < maxKeys \<and> maxKeys \<le> int (length c)
      then Inl (Error ''Cache max keys amount exceeded'')
      else Inr (nc_put ttl now c k v))"

section \<open>Rate limiting\<close>

record rate_entry =
  count :: int
  firstRequest :: int

record rate_result =
  allowed :: bool
  retryAfter :: "int option"

text \<open>
  \<^verbatim>\<open>rateLimitCache\<close> is built with \<^verbatim>\<open>stdTTL: config.rateLimit.windowMs / 1000\<close> and
  without \<^verbatim>\<open>maxKeys\<close>, so its \<^verbatim>\<open>set\<close> never throws. The clock is read once per call.
\<close>

definition rate_stdTTL :: int where
  "rate_stdTTL = windowMs div 1000"

definition checkRateLimit ::
  "int \<Rightarrow> string \<Rightarrow> rate_entry nodecache \<Rightarrow> rate_result \<times> rate_entry nodecache" where
  "checkRateLimit now clientIP cache =
     (let key = ''rate_'' @ clientIP;
          (requestData, cache1) = nc_get now cache key
      in case requestData of
           None \<Rightarrow>
             (\<lparr>allowed = True, retryAfter = None\<rparr>,
              nc_put rate_stdTTL now cache1 key \<lparr>count = 1, firstRequest = now\<rparr>)
         | Some rd \<Rightarrow>
             if windowMs < now - firstRequest rd then
               (\<lparr>allowed = True, retryAfter = None\<rparr>,
                nc_put rate_stdTTL now cache1 key \<lparr>count = 1, firstRequest = now\<rparr>)
             else if maxRequests \<le> count rd then
               (\<lparr>allowed = False,
                 retryAfter = Some (ceilDiv (windowMs - (now - firstRequest rd)) 1000)\<rparr>,
                cache1)
             else
               (\<lparr>allowed = True, retryAfter = None\<rparr>,
                nc_put rate_stdTTL now cache1 key
                  \<lparr>count = count rd + 1, firstRequest = firstRequest rd\<rparr>))"

section \<open>Requests, client identity and the domain allow-list\<close>

text \<open>
  Of a request the handler reads the method, the \<^verbatim>\<open>x-forwarded-for\<close> header (absent, a
  string, or an array of strings), the remote address of the connection and
  \<^verbatim>\<open>req.body.url\<close> (\<open>None\<close>: missing or not a string).
\<close>

datatype header = Str string | Arr "string list"

record request =
  req_method :: string
  x_forwarded_for :: "header option"
  remoteAddress :: "string option"
  body_url :: "string option"

text \<open>
  \<^verbatim>\<open>forwarded ? (...) : req.connection.remoteAddress || 'unknown'\<close>: an empty string is
  falsy, every array is truthy. The result is \<open>None\<close> for the \<^verbatim>\<open>undefined\<close> that
  \<^verbatim>\<open>forwarded[0]\<close> is on an empty array.
\<close>

definition remoteOrUnknown :: "request \<Rightarrow> string" where
  "remoteOrUnknown req =
     (case remoteAddress req of
        None \<Rightarrow> ''unknown''
      | Some a \<Rightarrow> if a = [] then ''unknown'' else a)"

definition getClientIP :: "request \<Rightarrow> string option" where
  "getClientIP req =
     (case x_forwarded_for req of
        None \<Rightarrow> Some (remoteOrUnknown req)
      | Some (Str s) \<Rightarrow>
          if s = [] then Some (remoteOrUnknown req)
          else Some (takeWhile (\<lambda>c. c \<noteq> CHR '','') s)
      | Some (Arr xs) \<Rightarrow> (case xs of [] \<Rightarrow> None | x # _ \<Rightarrow> Some x))"

text \<open>The value as the template literal \<^verbatim>\<open>`rate_${clientIP}`\<close> renders it.\<close>

definition js_string :: "string option \<Rightarrow> string" where
  "js_string v = (case v of None \<Rightarrow> ''undefined'' | Some s \<Rightarrow> s)"

text \<open>
  \<^verbatim>\<open>new URL(url).hostname\<close> is the platform's URL parser; it is a parameter
  \<open>parseURL\<close> of the model: \<open>None\<close> when the constructor throws, the host name otherwise.
\<close>

definition isAllowedDomain :: "(string \<Rightarrow> string option) \<Rightarrow> string \<Rightarrow> bool" where
  "isAllowedDomain parseURL url =
     (case parseURL url of
        None \<Rightarrow> False
      | Some host \<Rightarrow>
          (let hostname = toLowerCase host
           in list_ex (\<lambda>domain. hostname = domain \<or> endsWith hostname (''.'' @ domain))
                allowedDomains))"

section \<open>Retrying with a timeout\<close>

text \<open>
  A promise is modelled by how it settles: after how many milliseconds it resolves or
  rejects, or never. \<^verbatim>\<open>Promise.race([operation(), timeoutPromise])\<close> starts a fresh
  timer of \<open>timeoutMs\<close> for the attempt; the operation wins when it settles before the
  timer fires. The loser is not cancelled: whatever the operation does to the state is
  done whether it wins or not.
\<close>

datatype 'a promise = Resolves int 'a | Rejects int exn | Never

definition race :: "int \<Rightarrow> 'a promise \<Rightarrow> exn + 'a" where
  "race timeoutMs p =
     (case p of
        Resolves d v \<Rightarrow> if d < timeoutMs then Inr v else Inl (Error ''Operation timed out'')
      | Rejects d e \<Rightarrow> if d < timeoutMs then Inl e else Inl (Error ''Operation timed out'')
      | Never \<Rightarrow> Inl (Error ''Operation timed out''))"

text \<open>
  What \<^verbatim>\<open>retryOperation\<close> does besides calling the operation: it starts a timer for
  attempt \<open>i\<close> and it sleeps between attempts.
\<close>

datatype event = Raced nat int | Slept int

function retry_loop ::
  "('s \<Rightarrow> 'a promise \<times> 's) \<Rightarrow> nat \<Rightarrow> int \<Rightarrow> int \<Rightarrow> nat \<Rightarrow> exn \<Rightarrow> event list \<Rightarrow> 's
     \<Rightarrow> (exn + 'a) \<times> event list \<times> 's" where
  "retry_loop operation maxRetries delay timeoutMs attempt lastError tr s =
     (if attempt \<le> maxRetries then
        (case operation s of
           (p, s') \<Rightarrow>
             (case race timeoutMs p of
                Inr v \<Rightarrow> (Inr v, tr @ [Raced attempt timeoutMs], s')
              | Inl error \<Rightarrow>
                  if attempt < maxRetries then
                    retry_loop operation maxRetries delay timeoutMs (attempt + 1) error
                      (tr @ [Raced attempt timeoutMs, Slept (delay * int attempt)]) s'
                  else
                    retry_loop operation maxRetries delay timeoutMs (attempt + 1) error
                      (tr @ [Raced attempt timeoutMs]) s'))
      else (Inl lastError, tr, s))"
  by pat_completeness auto
termination
  by (relation "measure (\<lambda>(operation, maxRetries, delay, timeoutMs, attempt, lastError, tr, s).
        maxRetries + 1 - attempt)") auto

declare retry_loop.simps [simp del]

definition retryOperation ::
  "('s \<Rightarrow> 'a promise \<times> 's) \<Rightarrow> nat \<Rightarrow> int \<Rightarrow> int \<Rightarrow> 's \<Rightarrow> (exn + 'a) \<times> event list \<times> 's" where
  "retryOperation operation maxRetries delay timeoutMs s =
     retry_loop operation maxRetries delay timeoutMs 1 Undefined [] s"

section \<open>Waiting for a download slot\<close>

definition maxWaitTime :: int where
  "maxWaitTime = 60000"

definition checkInterval :: int where
  "checkInterval = 1000"

text \<open>
  \<^verbatim>\<open>waitForSlot\<close> evaluates its loop condition on the counter, and when no slot is
  free reads the clock, gives up or sleeps \<open>checkInterval\<close> on a timer, and evaluates the
  condition again. Other requests change the counter while this one sleeps, and a timer
  fires at its delay or later, never earlier: a wake-up is how late the timer fires and
  the value of \<^verbatim>\<open>activeDownloads\<close> the loop condition reads then. \<open>now\<close> is the clock
  reading at the current evaluation (\<open>startTime\<close> at the first one, taken in the same
  turn) and \<open>active\<close> the counter it reads. The result is \<open>None\<close> when the wake-ups end
  while the request is still waiting; otherwise it is the error thrown, or the counter
  value the passing test has read, with the sleeps taken so far.
\<close>

fun waitForSlot_loop ::
  "int \<Rightarrow> int \<Rightarrow> int \<Rightarrow> (nat \<times> int) list \<Rightarrow> event list \<Rightarrow> ((exn + int) \<times> event list) option" where
  "waitForSlot_loop startTime now active wakeups tr =
     (if maxConcurrent \<le> active then
        (if maxWaitTime < now - startTime
         then Some (Inl (Error ''Server too busy. Please try again later.''), tr)
         else (case wakeups of
                 [] \<Rightarrow> None
               | (late, seen) # rest \<Rightarrow>
                   waitForSlot_loop startTime (now + checkInterval + int late) seen rest
                     (tr @ [Slept checkInterval])))
      else Some (Inr active, tr))"

declare waitForSlot_loop.simps [simp del]

definition waitForSlot ::
  "int \<Rightarrow> int \<Rightarrow> (nat \<times> int) list \<Rightarrow> ((exn + int) \<times> event list) option" where
  "waitForSlot startTime active wakeups = waitForSlot_loop startTime startTime active wakeups []"

section \<open>Process state, files and cleanup\<close>

record cached_video =
  filePath :: string
  filename :: string
  contentType :: string
  video_size :: int

text \<open>
  The state shared by all requests: the two caches, the counter, the files on disk
  (path and size, in directory order), the paths \<^verbatim>\<open>unlinkSync\<close> fails on, and the log
  of the format selectors \<^verbatim>\<open>youtubedl\<close> was invoked with.
\<close>

record world =
  rateLimitCache :: "rate_entry nodecache"
  videoCache :: "cached_video nodecache"
  activeDownloads :: int
  files :: "(string \<times> int) list"
  undeletable :: "string list"
  calls :: "string list"

definition existsSync :: "world \<Rightarrow> string \<Rightarrow> bool" where
  "existsSync w p = (case map_of (files w) p of None \<Rightarrow> False | Some sz \<Rightarrow> True)"

definition unlinkSync :: "string \<Rightarrow> world \<Rightarrow> exn + world" where
  "unlinkSync p w =
     (if existsSync w p \<and> p \<notin> set (undeletable w)
      then Inr (w\<lparr>files := AList.delete p (files w)\<rparr>)
      else Inl (Error ''unlink failed''))"

text \<open>
  The closure \<^verbatim>\<open>createCleanupFunction\<close> returns: its captured path and its flag.
  \<open>cleanup\<close> is one call of it.
\<close>

record cleanup_fn =
  closure_path :: string
  cleaned :: bool

definition createCleanupFunction :: "string \<Rightarrow> cleanup_fn" where
  "createCleanupFunction p = \<lparr>closure_path = p, cleaned = False\<rparr>"

definition cleanup :: "cleanup_fn \<Rightarrow> world \<Rightarrow> cleanup_fn \<times> world" where
  "cleanup c w =
     (if cleaned c then (c, w)
      else
        (let w1 =
               (if closure_path c = [] then w
                else if existsSync w (closure_path c) then
                  (case unlinkSync (closure_path c) w of
                     Inr w' \<Rightarrow> w'
                   | Inl cleanupError \<Rightarrow> w)
                else w)
         in (c\<lparr>cleaned := True\<rparr>,
             w1\<lparr>activeDownloads :=
                  (if 0 < activeDownloads w1 then activeDownloads w1 - 1
                   else activeDownloads w1)\<rparr>)))"

section \<open>The extraction tool and one download attempt\<close>

text \<open>
  \<^verbatim>\<open>youtubedl\<close> is the external tool. One run of it is described by how long it takes,
  the message of the error it rejects with (\<open>None\<close>: it resolves) and the files it
  leaves in the temporary directory. What the tool does is a parameter of the model: a
  function from the number of earlier invocations and the format selector to the run.
\<close>

record tool_run =
  took :: int
  failure :: "string option"
  wrote :: "(string \<times> int) list"

text \<open>
  What one request meets besides the shared state: the URL parser, the SHA-256 digest
  behind \<^verbatim>\<open>getCacheKey\<close>, the clock reading on arrival (used by the rate limiter, the
  cache lookup and as \<open>startTime\<close>), the wake-ups of \<^verbatim>\<open>waitForSlot\<close>, what the other
  requests add to the counter between the loop test that lets this request through and
  its own \<^verbatim>\<open>activeDownloads++\<close> (\<open>interleaved\<close>, 0 for a request that runs alone), the
  clock reading \<open>timestamp\<close> after admission, the tool, the clock reading when extraction
  has returned, and whether \<^verbatim>\<open>copyFileSync\<close> into the cache fails.
\<close>

record env =
  parseURL :: "string \<Rightarrow> string option"
  getCacheKey :: "string \<Rightarrow> string"
  arrival :: int
  wakeups :: "(nat \<times> int) list"
  interleaved :: int
  timestamp :: int
  youtubedl :: "nat \<Rightarrow> string \<Rightarrow> tool_run"
  finished :: int
  copyFails :: bool

definition write_files :: "(string \<times> int) list \<Rightarrow> (string \<times> int) list \<Rightarrow> (string \<times> int) list" where
  "write_files new fs = fold (\<lambda>(p, sz). AList.update p sz) new fs"

definition invoke :: "env \<Rightarrow> string \<Rightarrow> world \<Rightarrow> tool_run \<times> world" where
  "invoke env format w =
     (let r = youtubedl env (length (calls w)) format
      in (r, w\<lparr>files := write_files (wrote r) (files w), calls := calls w @ [format]\<rparr>))"

definition primary_format :: string where
  "primary_format = ''best[height<=720]/best''"

definition fallback_format :: string where
  "fallback_format = ''best''"

text \<open>
  The operation the handler passes to \<^verbatim>\<open>retryOperation\<close>: the tool with the primary
  format and, inside the \<^verbatim>\<open>catch\<close> of the same operation, once more with
  \<^verbatim>\<open>format: 'best'\<close> when the message says the format is not available. An operation
  that has lost the race against the timer runs on; what it does is recorded with the
  attempt that started it, so \<open>calls\<close> lists the invocations attempt by attempt, which
  need not be their order in time.
\<close>

definition download_attempt :: "env \<Rightarrow> world \<Rightarrow> unit promise \<times> world" where
  "download_attempt env w =
     (case invoke env primary_format w of
        (r1, w1) \<Rightarrow>
          (case failure r1 of
             None \<Rightarrow> (Resolves (took r1) (), w1)
           | Some message \<Rightarrow>
               if str_includes message ''Requested format is not available'' then
                 (case invoke env fallback_format w1 of
                    (r2, w2) \<Rightarrow>
                      (case failure r2 of
                         None \<Rightarrow> (Resolves (took r1 + took r2) (), w2)
                       | Some message2 \<Rightarrow> (Rejects (took r1 + took r2) (Error message2), w2)))
               else (Rejects (took r1) (Error message), w1)))"

section \<open>After extraction: the file, its size, the cache, the headers\<close>

definition readdirSync :: "world \<Rightarrow> string \<Rightarrow> string list" where
  "readdirSync w dir =
     map (drop (length dir + 1))
       (filter (\<lambda>p. startsWith p (dir @ ''/'') \<and> CHR ''/'' \<notin> set (drop (length dir + 1) p))
          (map fst (files w)))"

definition extname :: "string \<Rightarrow> string" where
  "extname name =
     (let tail = takeWhile (\<lambda>c. c \<noteq> CHR ''.'') (rev name)
      in if CHR ''.'' \<in> set name \<and> length tail + 1 < length name
         then CHR ''.'' # rev tail else [])"

definition contentTypes :: "(string \<times> string) list" where
  "contentTypes =
     [(''.mp4'', ''video/mp4''), (''.webm'', ''video/webm''), (''.mkv'', ''video/x-matroska''),
      (''.avi'', ''video/x-msvideo''), (''.mov'', ''video/quicktime''), (''.flv'', ''video/x-flv''),
      (''.m4v'', ''video/mp4'')]"

text \<open>
  File names are byte strings here. \<open>isSpace\<close> is \<^verbatim>\<open>\s\<close> on the ASCII blanks; the other
  Unicode spaces that \<^verbatim>\<open>\s\<close> matches are outside these strings.
\<close>

definition isSpace :: "char \<Rightarrow> bool" where
  "isSpace c = (c \<in> set [CHR '' '', CHR 0x09, CHR 0x0A, CHR 0x0B, CHR 0x0C, CHR 0x0D])"

definition isWord :: "char \<Rightarrow> bool" where
  "isWord c =
     (c \<in> set ''ABCDEFGHIJKLMNOPQRSTUVWXYZabcdefghijklmnopqrstuvwxyz0123456789_'')"

primrec collapseSpaces :: "bool \<Rightarrow> string \<Rightarrow> string" where
  "collapseSpaces inRun [] = []"
| "collapseSpaces inRun (c # cs) =
     (if isSpace c then (if inRun then collapseSpaces True cs else CHR '' '' # collapseSpaces True cs)
      else c # collapseSpaces False cs)"

definition trim :: "string \<Rightarrow> string" where
  "trim s = rev (dropWhile isSpace (rev (dropWhile isSpace s)))"

definition sanitizeFilename :: "string \<Rightarrow> string" where
  "sanitizeFilename name =
     take 180 (trim (collapseSpaces False
       (filter (\<lambda>c. isWord c \<or> isSpace c \<or> c \<in> set ''-_.()'') name)))"

text \<open>
  \<^verbatim>\<open>fileSize / (1024 * 1024)\<close> is exact in floating point, so the comparisons with 100
  and 50 are comparisons of the byte count; \<^verbatim>\<open>toFixed(1)\<close> rounds the tenths half up.
\<close>

definition toFixed1 :: "int \<Rightarrow> string" where
  "toFixed1 fileSize =
     (let n = (fileSize * 20 + 1048576) div 2097152
      in showInt (n div 10) @ ''.'' @ showInt (n mod 10))"

datatype response =
  Json nat string "int option" "(int \<times> int) option"
| Stream "(string \<times> string) list" string

text \<open>
  \<open>Json status error retryAfter load\<close> is \<^verbatim>\<open>res.status(status).json({...})\<close>, with the
  fields \<^verbatim>\<open>activeDownloads\<close> and \<^verbatim>\<open>maxConcurrent\<close> when the body has them (its
  \<^verbatim>\<open>timestamp\<close> is left out); \<open>Stream headers path\<close> is a file piped into the response.
  A \<^verbatim>\<open>try\<close> block either returns, with the response and the cleanup closure it
  registered on the stream, or throws, with the values \<^verbatim>\<open>outputPath\<close> and \<^verbatim>\<open>cleanup\<close>
  have at that point.
\<close>

datatype outcome =
  Returned response "cleanup_fn option"
| Thrown exn "string option" "cleanup_fn option"

definition quoted :: "string \<Rightarrow> string" where
  "quoted s = [CHR 0x22] @ s @ [CHR 0x22]"

text \<open>
  Caching the download: \<^verbatim>\<open>copyFileSync\<close> and \<^verbatim>\<open>videoCache.set\<close> inside one
  \<^verbatim>\<open>try\<close> whose \<^verbatim>\<open>catch\<close> only logs. \<^verbatim>\<open>videoCache\<close> is built with
  \<^verbatim>\<open>stdTTL: config.cache.ttl\<close> and \<^verbatim>\<open>maxKeys: config.cache.maxSize\<close>.
\<close>

definition cache_download :: "env \<Rightarrow> string \<Rightarrow> string \<Rightarrow> cached_video \<Rightarrow> world \<Rightarrow> world" where
  "cache_download env cacheKey cacheFilePath entry w =
     (if copyFails env then w
      else
        (let w1 = w\<lparr>files := AList.update cacheFilePath (video_size entry) (files w)\<rparr>
         in case nc_set cache_ttl cache_maxSize (finished env) (videoCache w1) cacheKey entry of
              Inl cacheError \<Rightarrow> w1
            | Inr vc \<Rightarrow> w1\<lparr>videoCache := vc\<rparr>))"

text \<open>
  From \<^verbatim>\<open>// Find downloaded file\<close> to the end of the \<^verbatim>\<open>try\<close> block. Saving the
  download to the user's history sits in a \<^verbatim>\<open>try\<close> of its own and touches none of the
  state modelled here.
\<close>

definition finish_download :: "env \<Rightarrow> string \<Rightarrow> world \<Rightarrow> outcome \<times> world" where
  "finish_download env cacheKey w =
     (case List.find
             (\<lambda>file. startsWith file (''video_'' @ showInt (timestamp env) @ ''_'')
                      \<and> \<not> endsWith file ''.part'')
             (readdirSync w ''/tmp'') of
        None \<Rightarrow> (Thrown (Error ''Downloaded file not found'') None None, w)
      | Some downloadedFile \<Rightarrow>
          (let outputPath = ''/tmp/'' @ downloadedFile
           in case map_of (files w) outputPath of
                None \<Rightarrow>
                  (Thrown (Error ''Downloaded file does not exist'') (Some outputPath) None, w)
              | Some fileSize \<Rightarrow>
                  if maxFileSizeMB * 1048576 < fileSize then
                    (Thrown
                       (Error (''File too large: '' @ toFixed1 fileSize @ ''MB (max: ''
                               @ showInt maxFileSizeMB @ ''MB)''))
                       (Some outputPath) None, w)
                  else
                    (let ext = toLowerCase (extname downloadedFile);
                         ctype = (case map_of contentTypes ext of
                                    None \<Rightarrow> ''application/octet-stream''
                                  | Some t \<Rightarrow> t);
                         sanitizedFilename = sanitizeFilename downloadedFile;
                         w1 = (if fileSize < 50 * 1048576
                               then cache_download env cacheKey (''/tmp/cached_'' @ cacheKey @ ext)
                                      \<lparr>filePath = ''/tmp/cached_'' @ cacheKey @ ext,
                                       filename = sanitizedFilename,
                                       contentType = ctype,
                                       video_size = fileSize\<rparr> w
                               else w)
                     in (Returned
                           (Stream
                              [(''Content-Type'', ctype),
                               (''Content-Length'', showInt fileSize),
                               (''Content-Disposition'',
                                ''attachment; filename='' @ quoted sanitizedFilename),
                               (''Cache-Control'', ''no-cache, no-store, must-revalidate''),
                               (''Connection'', ''keep-alive''),
                               (''Keep-Alive'', ''timeout=300, max=1000''),
                               (''X-Cache'', ''MISS''),
                               (''X-Download-Time'', showInt (finished env - arrival env)),
                               (''X-File-Size'', toFixed1 fileSize @ ''MB''),
                               (''X-Active-Downloads'', showInt (activeDownloads w1))]
                              outputPath)
                           (Some (createCleanupFunction outputPath)), w1))))"

section \<open>The handler\<close>

text \<open>
  The model follows one request; the other requests show where this one reads the counter
  they share. While it sleeps in \<^verbatim>\<open>waitForSlot\<close> they move the counter (the wake-ups).
  The loop test that finds a slot free and \<^verbatim>\<open>activeDownloads++\<close> are separated by the
  \<^verbatim>\<open>await\<close> of \<^verbatim>\<open>waitForSlot()\<close>: the handler resumes in a later turn, and the requests
  that ran in between (those that passed their own test on the same counter value and
  incremented first, among them) have changed the counter by \<open>interleaved\<close>. The
  increment applies to the counter as it is then, not to the value the test has read.
\<close>

definition miss_path :: "env \<Rightarrow> string \<Rightarrow> world \<Rightarrow> (outcome \<times> world) option" where
  "miss_path env cacheKey w =
     (case waitForSlot (arrival env) (activeDownloads w) (wakeups env) of
        None \<Rightarrow> None
      | Some (Inl busy, slept) \<Rightarrow> Some (Thrown busy None None, w)
      | Some (Inr active, slept) \<Rightarrow>
          (case retryOperation (download_attempt env) config_maxRetries config_retryDelay
                  config_downloadTimeoutMs
                  (w\<lparr>activeDownloads := active + interleaved env + 1\<rparr>) of
             (Inl failed, tr, w2) \<Rightarrow> Some (Thrown failed None None, w2)
           | (Inr output, tr, w2) \<Rightarrow> Some (finish_download env cacheKey w2)))"

definition hit_headers :: "cached_video \<Rightarrow> (string \<times> string) list" where
  "hit_headers cachedVideo =
     [(''Content-Type'', contentType cachedVideo),
      (''Content-Length'', showInt (video_size cachedVideo)),
      (''Content-Disposition'', ''attachment; filename='' @ quoted (filename cachedVideo)),
      (''Cache-Control'', ''no-cache, no-store, must-revalidate''),
      (''X-Cache'', ''HIT''),
      (''X-Download-Time'', ''0'')]"

definition try_block :: "env \<Rightarrow> string \<Rightarrow> world \<Rightarrow> (outcome \<times> world) option" where
  "try_block env url w =
     (case nc_get (arrival env) (videoCache w) (getCacheKey env url) of
        (None, vc) \<Rightarrow> miss_path env (getCacheKey env url) (w\<lparr>videoCache := vc\<rparr>)
      | (Some cachedVideo, vc) \<Rightarrow>
          if existsSync (w\<lparr>videoCache := vc\<rparr>) (filePath cachedVideo)
          then Some (Returned (Stream (hit_headers cachedVideo) (filePath cachedVideo)) None,
                     w\<lparr>videoCache := vc\<rparr>)
          else miss_path env (getCacheKey env url) (w\<lparr>videoCache := vc\<rparr>))"

text \<open>The \<^verbatim>\<open>// Cleanup on error\<close> part of the \<^verbatim>\<open>catch\<close> block.\<close>

definition catch_cleanup :: "cleanup_fn option \<Rightarrow> string option \<Rightarrow> world \<Rightarrow> world" where
  "catch_cleanup cleanupFn outputPath w =
     (case cleanupFn of
        Some c \<Rightarrow> snd (cleanup c w)
      | None \<Rightarrow>
          (case outputPath of
             None \<Rightarrow> w
           | Some p \<Rightarrow>
               if p = [] then w
               else if existsSync w p then
                 (case unlinkSync p w of
                    Inr w' \<Rightarrow> w'\<lparr>activeDownloads := max 0 (activeDownloads w' - 1)\<rparr>
                  | Inl cleanupError \<Rightarrow> w)
               else w))"

text \<open>The \<^verbatim>\<open>// Enhanced error messages\<close> part: status code and message.\<close>

definition error_response :: "exn \<Rightarrow> nat \<times> string" where
  "error_response error =
     (case error of
        Undefined \<Rightarrow> (500, ''Download failed'')
      | Error message \<Rightarrow>
          (let errorMsg = toLowerCase message
           in if str_includes errorMsg ''server too busy'' then
                (503, ''Server is currently busy. Please try again in a few minutes.'')
              else if str_includes errorMsg ''timed out'' then
                (408, ''Download timed out. Please try again with a shorter video.'')
              else if str_includes errorMsg ''unsupported url'' then
                (400, ''This URL is not supported'')
              else if str_includes errorMsg ''video unavailable'' then
                (404, ''Video is unavailable or private'')
              else if str_includes errorMsg ''file too large'' then
                (413, message)
              else if str_includes errorMsg ''network'' \<or> str_includes errorMsg ''connection'' then
                (503, ''Network error occurred. Please try again.'')
              else if str_includes errorMsg ''rate'' \<or> str_includes errorMsg ''429'' then
                (429, ''Too many requests. Please try again later.'')
              else (500, ''Download failed'')))"

definition rate_limit_response :: "rate_result \<Rightarrow> response" where
  "rate_limit_response rateLimitResult =
     Json 429
       (''Rate limit exceeded. Max '' @ showInt maxRequests @ '' downloads per ''
        @ showInt (windowMs div 60000) @ '' minutes.'')
       (Some (case retryAfter rateLimitResult of
                None \<Rightarrow> 900
              | Some r \<Rightarrow> if r = 0 then 900 else r))
       None"

text \<open>
  The handler returns the response, the state it leaves and the cleanup closure that
  is registered on the stream, or \<open>None\<close> while the request is still waiting for a slot
  when its polls end.
\<close>

definition handler :: "env \<Rightarrow> request \<Rightarrow> world \<Rightarrow> (response \<times> world \<times> cleanup_fn option) option" where
  "handler env req w =
     (if req_method req = ''POST'' then
        (case body_url req of
           None \<Rightarrow> Some (Json 400 ''URL parameter is required'' None None, w, None)
         | Some url \<Rightarrow>
             if url = [] then Some (Json 400 ''URL parameter is required'' None None, w, None)
             else
               (case parseURL env url of
                  None \<Rightarrow> Some (Json 400 ''Invalid URL format'' None None, w, None)
                | Some parsed \<Rightarrow>
                    if isAllowedDomain (parseURL env) url then
                      (case checkRateLimit (arrival env) (js_string (getClientIP req))
                              (rateLimitCache w) of
                         (rateLimitResult, rc) \<Rightarrow>
                           if allowed rateLimitResult then
                             (case try_block env url (w\<lparr>rateLimitCache := rc\<rparr>) of
                                None \<Rightarrow> None
                              | Some (Returned r c, w1) \<Rightarrow> Some (r, w1, c)
                              | Some (Thrown error outputPath c, w1) \<Rightarrow>
                                  (let w2 = catch_cleanup c outputPath w1
                                   in Some (Json (fst (error_response error))
                                              (snd (error_response error)) None
                                              (Some (activeDownloads w2, maxConcurrent)),
                                            w2, c)))
                           else Some (rate_limit_response rateLimitResult,
                                      w\<lparr>rateLimitCache := rc\<rparr>, None))
                    else
                      Some (Json 400
                              (''Domain not supported. Supported domains: ''
                               @ join '', '' allowedDomains)
                              None None, w, None)))
      else Some (Json 405 ''Method not allowed'' None None, w, None))"

section \<open>Notions the statements use\<close>

text \<open>
  \<open>cleanups n\<close> is \<open>n\<close> calls of one cleanup closure in a row; \<open>rate_calls\<close> runs
  \<^verbatim>\<open>checkRateLimit\<close> for a list of calls, each with its clock reading and client key.
  \<open>granted\<close> and \<open>denied r\<close> are the two results \<^verbatim>\<open>checkRateLimit\<close> returns.
\<close>

primrec cleanups :: "nat \<Rightarrow> cleanup_fn \<Rightarrow> world \<Rightarrow> cleanup_fn \<times> world" where
  "cleanups 0 c w = (c, w)"
| "cleanups (Suc n) c w = (case cleanup c w of (c', w') \<Rightarrow> cleanups n c' w')"

primrec rate_calls ::
  "(int \<times> string) list \<Rightarrow> rate_entry nodecache \<Rightarrow> rate_result list \<times> rate_entry nodecache" where
  "rate_calls [] cache = ([], cache)"
| "rate_calls (call # rest) cache =
     (case checkRateLimit (fst call) (snd call) cache of
        (r, cache1) \<Rightarrow>
          (case rate_calls rest cache1 of (rs, cache2) \<Rightarrow> (r # rs, cache2)))"

definition granted :: rate_result where
  "granted = \<lparr>allowed = True, retryAfter = None\<rparr>"

definition denied :: "int \<Rightarrow> rate_result" where
  "denied r = \<lparr>allowed = False, retryAfter = Some r\<rparr>"

text \<open>
  For the retry wrapper: the state after \<open>k\<close> runs of the operation, what the race
  of attempt \<open>i\<close> (counted from 1) yields, and the events of \<open>k\<close> attempts with the
  waits between them. \<open>format_unavailable\<close> says that the primary invocation made in a
  state fails with the message the fallback is bound to.
\<close>

definition after_attempts :: "('s \<Rightarrow> 'a promise \<times> 's) \<Rightarrow> nat \<Rightarrow> 's \<Rightarrow> 's" where
  "after_attempts operation k s = ((\<lambda>s. snd (operation s)) ^^ k) s"

definition attempt_result :: "('s \<Rightarrow> 'a promise \<times> 's) \<Rightarrow> int \<Rightarrow> nat \<Rightarrow> 's \<Rightarrow> exn + 'a" where
  "attempt_result operation timeoutMs i s =
     race timeoutMs (fst (operation (after_attempts operation (i - 1) s)))"

definition attempts_trace :: "int \<Rightarrow> int \<Rightarrow> nat \<Rightarrow> event list" where
  "attempts_trace delay timeoutMs k =
     concat (map (\<lambda>i. [Raced i timeoutMs, Slept (delay * int i)]) [1..<k]) @ [Raced k timeoutMs]"

definition format_unavailable :: "env \<Rightarrow> world \<Rightarrow> bool" where
  "format_unavailable env w =
     (case failure (youtubedl env (length (calls w)) primary_format) of
        None \<Rightarrow> False
      | Some message \<Rightarrow> str_includes message ''Requested format is not available'')"






section \<open>Example requests\<close>

definition youtube_url :: string where
  "youtube_url = ''https://youtube.com/watch?v=X''"

definition idle_world :: world where
  "idle_world =
     \<lparr>rateLimitCache = [], videoCache = [], activeDownloads = 0, files = [],
      undeletable = [], calls = []\<rparr>"

definition post_request :: request where
  "post_request =
     \<lparr>req_method = ''POST'', x_forwarded_for = None, remoteAddress = Some ''10.0.0.7'',
      body_url = Some youtube_url\<rparr>"

text \<open>
  A request for which the tool fails on every invocation with \<^verbatim>\<open>Video unavailable\<close>,
  leaving a partial file behind.
\<close>

definition unavailable_env :: env where
  "unavailable_env =
     \<lparr>parseURL = (\<lambda>u. if u = youtube_url then Some ''youtube.com'' else None),
      getCacheKey = (\<lambda>u. ''k''), arrival = 1000, wakeups = [], interleaved = 0,
      timestamp = 1001,
      youtubedl = (\<lambda>n format.
        \<lparr>took = 2000, failure = Some ''ERROR: Video unavailable'',
         wrote = [(''/tmp/video_1001_clip.mp4.part'', 4096)]\<rparr>),
      finished = 9000, copyFails = False\<rparr>"

text \<open>Worlds and requests of the other examples.\<close>

definition streaming_world :: world where
  "streaming_world =
     idle_world\<lparr>activeDownloads := 1, files := [(''/tmp/video_1001_clip.mp4'', 4096)]\<rparr>"

definition cached_world :: world where
  "cached_world = idle_world\<lparr>activeDownloads := 2,
     files := [(''/tmp/cached_k.mp4'', 4096)],
     videoCache := [(''k'', \<lparr>filePath = ''/tmp/cached_k.mp4'', filename = ''video_1_clip.mp4'',
         contentType = ''video/mp4'', video_size = 4096\<rparr>, 7201000)]\<rparr>"

definition vimeo_env :: env where
  "vimeo_env = unavailable_env\<lparr>parseURL := (\<lambda>u. Some ''player.vimeo.com'')\<rparr>"

definition anonymous_request :: request where
  "anonymous_request =
     \<lparr>req_method = ''POST'', x_forwarded_for = None, remoteAddress = None,
      body_url = Some youtube_url\<rparr>"

definition flaky :: "nat \<Rightarrow> unit promise \<times> nat" where
  "flaky n =
     (if n = 0 then Never else if n = 1 then Rejects 10 (Error ''boom'') else Resolves 20 (),
      Suc n)"

definition no_format_env :: env where
  "no_format_env =
     unavailable_env\<lparr>youtubedl := (\<lambda>n format.
        \<lparr>took = 2000, failure = Some ''ERROR: Requested format is not available'', wrote = []\<rparr>)\<rparr>"

definition instagram_env :: env where
  "instagram_env =
     unavailable_env\<lparr>youtubedl := (\<lambda>n format.
        if format = fallback_format
        then \<lparr>took = 4000, failure = None, wrote = [(''/tmp/video_1001_reel.mp4'', 4096)]\<rparr>
        else \<lparr>took = 2000, failure = Some ''ERROR: Requested format is not available'', wrote = []\<rparr>)\<rparr>"

text \<open>A cache entry whose file was removed behind the handler's back.\<close>

definition stale_entry :: cached_video where
  "stale_entry = \<lparr>filePath = ''/tmp/cached_k.mp4'', filename = ''video_1_clip.mp4'',
     contentType = ''video/mp4'', video_size = 4096\<rparr>"

definition stale_world :: world where
  "stale_world = idle_world\<lparr>videoCache := [(''k'', stale_entry, 7201000)]\<rparr>"



text \<open>
  Two slots taken, and another request that passes the loop test on the same reading and
  increments before this one resumes.
\<close>

definition two_active_world :: world where
  "two_active_world = idle_world\<lparr>activeDownloads := 2\<rparr>"

definition racing_env :: env where
  "racing_env = unavailable_env\<lparr>interleaved := 1\<rparr>"

section \<open>Unfolding the model on concrete inputs\<close>

lemmas config_defs =
  windowMs_def maxRequests_def maxConcurrent_def cache_ttl_def cache_maxSize_def
  maxFileSizeMB_def config_maxRetries_def config_retryDelay_def allowedDomains_def
  config_downloadTimeoutMs_def maxWaitTime_def checkInterval_def rate_stdTTL_def
  primary_format_def fallback_format_def

lemma retry_loop_done:
  "\<not> attempt \<le> m \<Longrightarrow>
     retry_loop operation m delay timeoutMs attempt lastError tr s = (Inl lastError, tr, s)"
  by (simp add: retry_loop.simps)

lemma retry_loop_step:
  "attempt \<le> m \<Longrightarrow>
     retry_loop operation m delay timeoutMs attempt lastError tr s =
       (case operation s of
          (p, s') \<Rightarrow>
            (case race timeoutMs p of
               Inr v \<Rightarrow> (Inr v, tr @ [Raced attempt timeoutMs], s')
             | Inl error \<Rightarrow>
                 if attempt < m then
                   retry_loop operation m delay timeoutMs (attempt + 1) error
                     (tr @ [Raced attempt timeoutMs, Slept (delay * int attempt)]) s'
                 else
                   retry_loop operation m delay timeoutMs (attempt + 1) error
                     (tr @ [Raced attempt timeoutMs]) s'))"
  by (subst retry_loop.simps) simp

lemmas handler_eval =
  handler_def isAllowedDomain_def toLowerCase_def lowerChar_def endsWith_def config_defs
  checkRateLimit_def js_string_def getClientIP_def remoteOrUnknown_def nc_get_def nc_put_def
  nc_set_def try_block_def miss_path_def waitForSlot_def waitForSlot_loop.simps
  retryOperation_def retry_loop_done
  retry_loop_step download_attempt_def invoke_def write_files_def race_def catch_cleanup_def
  error_response_def finish_download_def readdirSync_def showInt_def digits.simps
  existsSync_def unlinkSync_def cleanup_def createCleanupFunction_def cache_download_def
  hit_headers_def extname_def sanitizeFilename_def toFixed1_def quoted_def contentTypes_def
  isSpace_def isWord_def trim_def rate_limit_response_def

section \<open>C1: cleanup on the error path\<close>

text \<open>
  C1 states that every request that fails after its slot was acquired, also when the
  tool produced no artifact and no output path was recorded, has the counter decremented
  and its temporary files removed before the error response is sent. The \<^verbatim>\<open>catch\<close> block
  decrements only inside the branch guarded by \<^verbatim>\<open>outputPath && existsSync(outputPath)\<close>.
  On the request below extraction fails in both attempts: the response is 404 and reports
  \<open>activeDownloads = 1\<close>, the counter stays at 1 with no download running, and the
  partial file is still on disk.
\<close>

theorem C1_slot_leaked_when_extraction_fails:
  "handler unavailable_env post_request idle_world =
     Some (Json 404 ''Video is unavailable or private'' None (Some (1, 3)),
           idle_world
             \<lparr>rateLimitCache :=
                [(''rate_10.0.0.7'', \<lparr>count = 1, firstRequest = 1000\<rparr>, 901000)],
              activeDownloads := 1,
              files := [(''/tmp/video_1001_clip.mp4.part'', 4096)],
              calls := [primary_format, primary_format]\<rparr>,
           None)"
  by (simp add: handler_eval unavailable_env_def post_request_def idle_world_def
      youtube_url_def)

section \<open>C3: the cleanup closure is idempotent\<close>

lemma unlinkSync_counter: "unlinkSync p w = Inr w' \<Longrightarrow> activeDownloads w' = activeDownloads w"
  by (auto simp: unlinkSync_def split: if_splits)

lemma cleanup_marks: "cleaned (fst (cleanup c w))"
  by (simp add: cleanup_def Let_def)

lemma cleanup_again: "cleaned c \<Longrightarrow> cleanup c w = (c, w)"
  by (simp add: cleanup_def)

lemma cleanup_counter:
  "activeDownloads (snd (cleanup c w)) =
     (if cleaned c then activeDownloads w
      else if 0 < activeDownloads w then activeDownloads w - 1 else activeDownloads w)"
  by (auto simp: cleanup_def Let_def unlinkSync_counter split: sum.splits)

lemma cleanups_cleaned: "cleaned c \<Longrightarrow> cleanups n c w = (c, w)"
  by (induction n) (simp_all add: cleanup_again)

lemma cleanups_Suc: "cleanups (Suc n) c w = cleanup c w"
proof -
  obtain c' w' where cw: "cleanup c w = (c', w')" by (cases "cleanup c w")
  then have "cleaned c'" using cleanup_marks[of c w] by simp
  then show ?thesis using cw by (simp add: cleanups_cleaned)
qed

text \<open>
  C3: calling the cleanup closure of an admitted request a second or any later time
  changes nothing, neither \<open>activeDownloads\<close> nor the files, whatever state it is
  called in; \<open>n + 1\<close> calls in a row leave the state one call leaves; and no number of
  calls decrements the counter below zero: afterwards it is not negative or it is what it
  was, so from a counter that is not negative it stays so.
\<close>

theorem C3_cleanup_idempotent:
  "cleanup (fst (cleanup c w)) (snd (cleanup c w)) = cleanup c w
   \<and> cleanup (fst (cleanup c w)) w' = (fst (cleanup c w), w')
   \<and> cleanups (Suc n) c w = cleanup c w
   \<and> (0 \<le> activeDownloads (snd (cleanups n c w))
        \<or> activeDownloads (snd (cleanups n c w)) = activeDownloads w)
   \<and> (0 \<le> activeDownloads w \<longrightarrow> 0 \<le> activeDownloads (snd (cleanups n c w)))"
proof -
  have a: "cleanup (fst (cleanup c w)) w' = (fst (cleanup c w), w')" for w'
    by (rule cleanup_again) (rule cleanup_marks)
  have b: "0 \<le> activeDownloads (snd (cleanup c w))
        \<or> activeDownloads (snd (cleanup c w)) = activeDownloads w"
    by (simp add: cleanup_counter)
  have c: "0 \<le> activeDownloads (snd (cleanups n c w))
        \<or> activeDownloads (snd (cleanups n c w)) = activeDownloads w"
    using b by (cases n) (simp_all add: cleanups_Suc del: cleanups.simps(2))
  have d: "0 \<le> activeDownloads w \<longrightarrow> 0 \<le> activeDownloads (snd (cleanups n c w))"
    using c by auto
  show ?thesis using a c d by (simp add: cleanups_Suc del: cleanups.simps(2))
qed

theorem C3_cleanup_idempotent_witness:
  "0 \<le> activeDownloads streaming_world
   \<and> cleanup (createCleanupFunction ''/tmp/video_1001_clip.mp4'') streaming_world =
       (\<lparr>closure_path = ''/tmp/video_1001_clip.mp4'', cleaned = True\<rparr>,
        streaming_world\<lparr>activeDownloads := 0, files := []\<rparr>)
   \<and> cleanups (Suc 2) (createCleanupFunction ''/tmp/video_1001_clip.mp4'') streaming_world =
       cleanup (createCleanupFunction ''/tmp/video_1001_clip.mp4'') streaming_world
   \<and> 0 \<le> activeDownloads
         (snd (cleanups 2 (createCleanupFunction ''/tmp/video_1001_clip.mp4'') streaming_world))"
  using C3_cleanup_idempotent[of "createCleanupFunction ''/tmp/video_1001_clip.mp4''"
      streaming_world streaming_world 2]
  by (simp add: streaming_world_def idle_world_def cleanup_def createCleanupFunction_def
        existsSync_def unlinkSync_def del: cleanups.simps)

section \<open>C9: a host outside the allow-list\<close>

text \<open>
  C9: when the URL parses and its host is neither an allow-listed domain nor a subdomain
  of one, the handler leaves the whole state as it was (no rate-limit entry is created or
  changed, \<open>activeDownloads\<close> is untouched), and a POST request is answered with 400.
\<close>

theorem C9_disallowed_host_rejected:
  assumes "parseURL env url = Some host"
    and "\<forall>domain \<in> set allowedDomains.
           toLowerCase host \<noteq> domain \<and> \<not> endsWith (toLowerCase host) (''.'' @ domain)"
    and "body_url req = Some url" and "url \<noteq> []"
  shows "(\<exists>r. handler env req w = Some (r, w, None))
       \<and> (req_method req = ''POST'' \<longrightarrow>
            handler env req w =
              Some (Json 400 (''Domain not supported. Supported domains: '' @ join '', '' allowedDomains)
                      None None, w, None))"
proof -
  have "\<not> isAllowedDomain (parseURL env) url"
    using assms(1,2) by (auto simp: isAllowedDomain_def list_ex_iff)
  then show ?thesis using assms by (simp add: handler_def)
qed

theorem C9_disallowed_host_rejected_witness:
  "parseURL vimeo_env youtube_url = Some ''player.vimeo.com''
   \<and> handler vimeo_env post_request idle_world =
       Some (Json 400
          ''Domain not supported. Supported domains: youtube.com, youtu.be, instagram.com, facebook.com, twitter.com, x.com, tiktok.com, twitch.tv''
          None None, idle_world, None)"
proof -
  have h1: "parseURL vimeo_env youtube_url = Some ''player.vimeo.com''"
    by (simp add: vimeo_env_def unavailable_env_def)
  have h2: "\<forall>domain \<in> set allowedDomains.
           toLowerCase ''player.vimeo.com'' \<noteq> domain \<and> \<not> endsWith (toLowerCase ''player.vimeo.com'') (''.'' @ domain)"
    by (simp add: allowedDomains_def toLowerCase_def lowerChar_def endsWith_def)
  have h3: "body_url post_request = Some youtube_url" "youtube_url \<noteq> []" "req_method post_request = ''POST''"
    by (simp_all add: post_request_def youtube_url_def)
  show ?thesis
    using C9_disallowed_host_rejected[OF h1 h2 h3(1,2), of idle_world] h1 h3(3)
    by (simp add: allowedDomains_def)
qed

section \<open>Rate limiting inside one window\<close>

lemma check_first:
  "map_of cache (''rate_'' @ ip) = None \<Longrightarrow>
     checkRateLimit t0 ip cache =
       (granted, AList.update (''rate_'' @ ip) (\<lparr>count = 1, firstRequest = t0\<rparr>, t0 + windowMs) cache)"
  by (simp add: checkRateLimit_def nc_get_def nc_put_def rate_stdTTL_def windowMs_def granted_def)

lemma check_in_window:
  assumes "map_of cache (''rate_'' @ ip) = Some (\<lparr>count = c, firstRequest = t0\<rparr>, e)"
    and "t \<le> e" and "t - t0 \<le> windowMs" and "c < maxRequests"
  shows "checkRateLimit t ip cache =
       (granted, AList.update (''rate_'' @ ip) (\<lparr>count = c + 1, firstRequest = t0\<rparr>, t + windowMs) cache)"
  using assms
  by (auto simp: checkRateLimit_def nc_get_def nc_put_def rate_stdTTL_def windowMs_def granted_def Let_def)

lemma check_denied:
  assumes "map_of cache (''rate_'' @ ip) = Some (\<lparr>count = c, firstRequest = t0\<rparr>, e)"
    and "t \<le> e" and "t - t0 \<le> windowMs" and "maxRequests \<le> c"
  shows "checkRateLimit t ip cache = (denied (ceilDiv (windowMs - (t - t0)) 1000), cache)"
  using assms
  by (auto simp: checkRateLimit_def nc_get_def nc_put_def rate_stdTTL_def denied_def Let_def)

lemma in_window_calls:
  assumes "map_of cache (''rate_'' @ ip) = Some (\<lparr>count = c, firstRequest = t0\<rparr>, e)"
    and "t0 + windowMs \<le> e"
    and "\<forall>t \<in> set ts. t0 \<le> t \<and> t - t0 \<le> windowMs"
    and "c + int (length ts) \<le> maxRequests"
  shows "\<exists>cache' e'.
           rate_calls (map (\<lambda>t. (t, ip)) ts) cache = (replicate (length ts) granted, cache')
         \<and> map_of cache' (''rate_'' @ ip) =
              Some (\<lparr>count = c + int (length ts), firstRequest = t0\<rparr>, e')
         \<and> t0 + windowMs \<le> e'"
  using assms
proof (induction ts arbitrary: cache c e)
  case Nil
  then show ?case by simp
next
  case (Cons t ts)
  let ?cache1 = "AList.update (''rate_'' @ ip) (\<lparr>count = c + 1, firstRequest = t0\<rparr>, t + windowMs) cache"
  have step: "checkRateLimit t ip cache = (granted, ?cache1)"
    using Cons.prems by (intro check_in_window[where e = e]) auto
  have m1: "map_of ?cache1 (''rate_'' @ ip) = Some (\<lparr>count = c + 1, firstRequest = t0\<rparr>, t + windowMs)"
    by (simp add: update_conv')
  obtain cache' e' where
    r: "rate_calls (map (\<lambda>t. (t, ip)) ts) ?cache1 = (replicate (length ts) granted, cache')"
    and m: "map_of cache' (''rate_'' @ ip) = Some (\<lparr>count = c + 1 + int (length ts), firstRequest = t0\<rparr>, e')"
    and e: "t0 + windowMs \<le> e'"
    using Cons.IH[OF m1] Cons.prems by auto
  show ?case using step r m e by (auto simp: add.assoc)
qed

lemma ceilDiv_pos: "0 < x \<Longrightarrow> 0 < ceilDiv x 1000"
  unfolding ceilDiv_def by linarith

lemma ceilDiv_zero: "ceilDiv 0 1000 = 0"
  by (simp add: ceilDiv_def)

lemma rate_limit_response_denied:
  "rate_limit_response (denied r) =
     Json 429 ''Rate limit exceeded. Max 5 downloads per 15 minutes.''
       (Some (if r = 0 then 900 else r)) None"
  by (simp add: rate_limit_response_def denied_def maxRequests_def windowMs_def showInt_def
      digits.simps)

lemma handler_rate_limited:
  assumes "req_method req = ''POST''" and "body_url req = Some url" and "url \<noteq> []"
    and "isAllowedDomain (parseURL env) url"
    and "checkRateLimit (arrival env) (js_string (getClientIP req)) (rateLimitCache w) = (denied r, rc)"
  shows "handler env req w = Some (rate_limit_response (denied r), w\<lparr>rateLimitCache := rc\<rparr>, None)"
proof -
  obtain host where "parseURL env url = Some host"
    using assms(4) by (auto simp: isAllowedDomain_def split: option.splits)
  then show ?thesis using assms by (simp add: handler_def denied_def)
qed

section \<open>C6: one more call than the quota\<close>

text \<open>
  C6, as the code has it: for a client key with no entry, the first call (at \<open>t0\<close>)
  creates the window with count 1 and is allowed; the next \<open>maxRequests - 1\<close> calls inside
  the window (not before \<open>t0\<close>, at most \<open>windowMs\<close> after it) are allowed and raise the
  count by one each; one more call inside the window is denied with
  \<open>retryAfter = ceil((windowMs - (now - t0)) / 1000)\<close> and the handler answers 429. That
  value is positive and is the one of the response when the call comes less than
  \<open>windowMs\<close> after \<open>t0\<close>; exactly \<open>windowMs\<close> after \<open>t0\<close> the window has not expired
  yet, the value is 0 and the response carries the default 900.
\<close>

theorem C6_window_quota:
  assumes "map_of cache (''rate_'' @ clientIP) = None"
    and "int (length ts) = maxRequests - 1"
    and "\<forall>t \<in> set (ts @ [t_last]). t0 \<le> t \<and> t - t0 \<le> windowMs"
  shows "\<exists>cache1 cache2.
           checkRateLimit t0 clientIP cache = (granted, cache1)
         \<and> map_of cache1 (''rate_'' @ clientIP) =
              Some (\<lparr>count = 1, firstRequest = t0\<rparr>, t0 + windowMs)
         \<and> rate_calls (map (\<lambda>t. (t, clientIP)) ts) cache1 = (replicate (length ts) granted, cache2)
         \<and> (\<forall>k \<le> length ts. \<exists>e.
               map_of (snd (rate_calls (map (\<lambda>t. (t, clientIP)) (take k ts)) cache1)) (''rate_'' @ clientIP)
                 = Some (\<lparr>count = 1 + int k, firstRequest = t0\<rparr>, e))
         \<and> checkRateLimit t_last clientIP cache2 =
              (denied (ceilDiv (windowMs - (t_last - t0)) 1000), cache2)
         \<and> (t_last - t0 < windowMs \<longrightarrow>
              0 < ceilDiv (windowMs - (t_last - t0)) 1000
              \<and> rate_limit_response (denied (ceilDiv (windowMs - (t_last - t0)) 1000)) =
                  Json 429 ''Rate limit exceeded. Max 5 downloads per 15 minutes.''
                    (Some (ceilDiv (windowMs - (t_last - t0)) 1000)) None)
         \<and> (t_last - t0 = windowMs \<longrightarrow>
              ceilDiv (windowMs - (t_last - t0)) 1000 = 0
              \<and> rate_limit_response (denied (ceilDiv (windowMs - (t_last - t0)) 1000)) =
                  Json 429 ''Rate limit exceeded. Max 5 downloads per 15 minutes.''
                    (Some 900) None)
         \<and> (\<forall>env req w url.
               req_method req = ''POST'' \<and> body_url req = Some url \<and> url \<noteq> []
               \<and> isAllowedDomain (parseURL env) url
               \<and> js_string (getClientIP req) = clientIP \<and> arrival env = t_last
               \<and> rateLimitCache w = cache2 \<longrightarrow>
               handler env req w =
                 Some (rate_limit_response (denied (ceilDiv (windowMs - (t_last - t0)) 1000)),
                       w, None))"
proof -
  let ?key = "''rate_'' @ clientIP"
  let ?cache1 = "AList.update ?key (\<lparr>count = 1, firstRequest = t0\<rparr>, t0 + windowMs) cache"
  have first: "checkRateLimit t0 clientIP cache = (granted, ?cache1)"
    using assms(1) by (rule check_first)
  have m1: "map_of ?cache1 ?key = Some (\<lparr>count = 1, firstRequest = t0\<rparr>, t0 + windowMs)"
    by (simp add: update_conv')
  have inw: "\<forall>t \<in> set ts. t0 \<le> t \<and> t - t0 \<le> windowMs"
    using assms(3) by simp
  have last: "t0 \<le> t_last" "t_last - t0 \<le> windowMs"
    using assms(3) by simp_all
  obtain cache2 e2 where
    calls: "rate_calls (map (\<lambda>t. (t, clientIP)) ts) ?cache1 = (replicate (length ts) granted, cache2)"
    and m2: "map_of cache2 ?key = Some (\<lparr>count = 1 + int (length ts), firstRequest = t0\<rparr>, e2)"
    and e2: "t0 + windowMs \<le> e2"
    using in_window_calls[OF m1 _ inw] assms(2) by auto
  have prefixes: "\<exists>e. map_of (snd (rate_calls (map (\<lambda>t. (t, clientIP)) (take k ts)) ?cache1)) ?key
                 = Some (\<lparr>count = 1 + int k, firstRequest = t0\<rparr>, e)" if "k \<le> length ts" for k
  proof -
    have "\<forall>t \<in> set (take k ts). t0 \<le> t \<and> t - t0 \<le> windowMs"
      using inw by (meson in_set_takeD)
    moreover have "1 + int (length (take k ts)) \<le> maxRequests"
      using assms(2) that by simp
    ultimately obtain c' e' where
      "rate_calls (map (\<lambda>t. (t, clientIP)) (take k ts)) ?cache1 = (replicate (length (take k ts)) granted, c')"
      "map_of c' ?key = Some (\<lparr>count = 1 + int (length (take k ts)), firstRequest = t0\<rparr>, e')"
      using in_window_calls[OF m1, where ts = "take k ts"] by auto
    then show ?thesis using that by (auto simp: min_def)
  qed
  have m2': "map_of cache2 ?key = Some (\<lparr>count = maxRequests, firstRequest = t0\<rparr>, e2)"
    using m2 assms(2) by simp
  have deny: "checkRateLimit t_last clientIP cache2 =
      (denied (ceilDiv (windowMs - (t_last - t0)) 1000), cache2)"
    using last e2 by (intro check_denied[OF m2']) auto
  have pos: "0 < ceilDiv (windowMs - (t_last - t0)) 1000" if "t_last - t0 < windowMs"
    using that by (intro ceilDiv_pos) simp
  have resp: "handler env req w =
      Some (rate_limit_response (denied (ceilDiv (windowMs - (t_last - t0)) 1000)), w, None)"
    if "req_method req = ''POST''" "body_url req = Some url" "url \<noteq> []"
      "isAllowedDomain (parseURL env) url" "js_string (getClientIP req) = clientIP"
      "arrival env = t_last" "rateLimitCache w = cache2"
    for env req w url
  proof -
    have "checkRateLimit (arrival env) (js_string (getClientIP req)) (rateLimitCache w) =
        (denied (ceilDiv (windowMs - (t_last - t0)) 1000), rateLimitCache w)"
      using deny that(5,6,7) by simp
    then show ?thesis
      using handler_rate_limited[OF that(1-4)] by simp
  qed
  have rest: "(t_last - t0 < windowMs \<longrightarrow>
              0 < ceilDiv (windowMs - (t_last - t0)) 1000
              \<and> rate_limit_response (denied (ceilDiv (windowMs - (t_last - t0)) 1000)) =
                  Json 429 ''Rate limit exceeded. Max 5 downloads per 15 minutes.''
                    (Some (ceilDiv (windowMs - (t_last - t0)) 1000)) None)
         \<and> (t_last - t0 = windowMs \<longrightarrow>
              ceilDiv (windowMs - (t_last - t0)) 1000 = 0
              \<and> rate_limit_response (denied (ceilDiv (windowMs - (t_last - t0)) 1000)) =
                  Json 429 ''Rate limit exceeded. Max 5 downloads per 15 minutes.''
                    (Some 900) None)"
    using pos by (auto simp: rate_limit_response_denied ceilDiv_zero)
  show ?thesis
    using first m1 calls prefixes deny rest resp
    by (intro exI[of _ ?cache1] exI[of _ cache2]) blast
qed

theorem C6_window_quota_witness:
  "fst (rate_calls (map (\<lambda>t. (t, ''10.0.0.7'')) [1, 2, 3, 4]) (snd (checkRateLimit 0 ''10.0.0.7'' [])))
     = [granted, granted, granted, granted]
   \<and> (\<exists>cache2. checkRateLimit 500000 ''10.0.0.7'' cache2 = (denied 400, cache2)
        \<and> rate_limit_response (denied 400) =
             Json 429 ''Rate limit exceeded. Max 5 downloads per 15 minutes.'' (Some 400) None)"
proof -
  have h1: "map_of ([] :: rate_entry nodecache) (''rate_'' @ ''10.0.0.7'') = None" by simp
  have h2: "int (length [1, 2, 3, 4 :: int]) = maxRequests - 1" by (simp add: maxRequests_def)
  have h3: "\<forall>t \<in> set ([1, 2, 3, 4] @ [500000 :: int]). 0 \<le> t \<and> t - 0 \<le> windowMs"
    by (simp add: windowMs_def)
  have c: "ceilDiv (windowMs - (500000 - 0)) 1000 = 400"
    by (simp add: ceilDiv_def windowMs_def)
  show ?thesis
    using C6_window_quota[OF h1 h2 h3] c by (auto simp: windowMs_def)
qed

text \<open>
  C6 as stated fails at the end of the window: six calls at 0, 1, 2, 3, 4 and 900000 ms
  are inside one window (it expires only when more than \<open>windowMs\<close> have passed); the
  sixth is denied with \<open>retryAfter = 0\<close>, which is not positive, and the response carries
  900, which is not \<open>ceil((windowMs - 900000) / 1000) = 0\<close>.
\<close>

theorem C6_boundary_counterexample:
  "rate_calls [(0, ''10.0.0.7''), (1, ''10.0.0.7''), (2, ''10.0.0.7''), (3, ''10.0.0.7''),
               (4, ''10.0.0.7''), (900000, ''10.0.0.7'')] [] =
     ([granted, granted, granted, granted, granted, denied 0],
      [(''rate_10.0.0.7'', \<lparr>count = 5, firstRequest = 0\<rparr>, 900004)])
   \<and> ceilDiv (windowMs - (900000 - 0)) 1000 = 0
   \<and> rate_limit_response (denied 0) =
        Json 429 ''Rate limit exceeded. Max 5 downloads per 15 minutes.'' (Some 900) None"
  by (simp add: checkRateLimit_def nc_get_def nc_put_def rate_stdTTL_def windowMs_def
      maxRequests_def granted_def denied_def ceilDiv_def rate_limit_response_def showInt_def
      digits.simps)

section \<open>C10: requests without an address\<close>

lemma anonymous_unknown:
  "x_forwarded_for req = None \<Longrightarrow> remoteAddress req = None \<Longrightarrow> getClientIP req = Some ''unknown''"
  by (simp add: getClientIP_def remoteOrUnknown_def)

lemma anonymous_calls:
  "length ts = length reqs \<Longrightarrow>
   \<forall>req \<in> set reqs. x_forwarded_for req = None \<and> remoteAddress req = None \<Longrightarrow>
   map (\<lambda>(t, req). (t, js_string (getClientIP req))) (zip ts reqs) = map (\<lambda>t. (t, ''unknown'')) ts"
  by (induction ts reqs rule: list_induct2) (simp_all add: anonymous_unknown js_string_def)

text \<open>
  C10: a request with neither an \<^verbatim>\<open>x-forwarded-for\<close> header nor a remote address gets
  the client identifier \<^verbatim>\<open>unknown\<close>; so such requests share one window: once
  \<open>maxRequests\<close> of them, from whichever connections, were allowed inside a window, the
  next such request inside that window is denied.
\<close>

theorem C10_anonymous_requests_share_quota:
  assumes "\<forall>req \<in> set (r0 # reqs @ [r_last]). x_forwarded_for req = None \<and> remoteAddress req = None"
    and "map_of cache ''rate_unknown'' = None"
    and "length ts = length reqs" and "int (length reqs) = maxRequests - 1"
    and "\<forall>t \<in> set (ts @ [t_last]). t0 \<le> t \<and> t - t0 \<le> windowMs"
  shows "(\<forall>req \<in> set (r0 # reqs @ [r_last]). getClientIP req = Some ''unknown'')
       \<and> (\<exists>cache2.
             rate_calls ((t0, js_string (getClientIP r0))
                         # map (\<lambda>(t, req). (t, js_string (getClientIP req))) (zip ts reqs)) cache
               = (replicate (Suc (length reqs)) granted, cache2)
           \<and> checkRateLimit t_last (js_string (getClientIP r_last)) cache2 =
               (denied (ceilDiv (windowMs - (t_last - t0)) 1000), cache2))"
proof -
  have ips: "\<forall>req \<in> set (r0 # reqs @ [r_last]). getClientIP req = Some ''unknown''"
    using assms(1) by (auto simp: anonymous_unknown)
  have m: "map (\<lambda>(t, req). (t, js_string (getClientIP req))) (zip ts reqs) = map (\<lambda>t. (t, ''unknown'')) ts"
    using assms(1,3) by (intro anonymous_calls) auto
  have fresh: "map_of cache (''rate_'' @ ''unknown'') = None" using assms(2) by simp
  have len: "int (length ts) = maxRequests - 1" using assms(3,4) by simp
  let ?cache1 = "AList.update (''rate_'' @ ''unknown'')
      (\<lparr>count = 1, firstRequest = t0\<rparr>, t0 + windowMs) cache"
  have first: "checkRateLimit t0 ''unknown'' cache = (granted, ?cache1)"
    using fresh by (rule check_first)
  have m1: "map_of ?cache1 (''rate_'' @ ''unknown'')
      = Some (\<lparr>count = 1, firstRequest = t0\<rparr>, t0 + windowMs)"
    by (simp add: update_conv')
  have inw: "\<forall>t \<in> set ts. t0 \<le> t \<and> t - t0 \<le> windowMs"
    using assms(5) by simp
  obtain cache2 e2 where
    calls: "rate_calls (map (\<lambda>t. (t, ''unknown'')) ts) ?cache1
        = (replicate (length ts) granted, cache2)"
    and m2: "map_of cache2 (''rate_'' @ ''unknown'')
        = Some (\<lparr>count = 1 + int (length ts), firstRequest = t0\<rparr>, e2)"
    and e2: "t0 + windowMs \<le> e2"
    using in_window_calls[OF m1 _ inw] len by auto
  have m2': "map_of cache2 (''rate_'' @ ''unknown'')
      = Some (\<lparr>count = maxRequests, firstRequest = t0\<rparr>, e2)"
    using m2 len by simp
  have deny: "checkRateLimit t_last ''unknown'' cache2
      = (denied (ceilDiv (windowMs - (t_last - t0)) 1000), cache2)"
    using assms(5) e2 by (intro check_denied[OF m2']) auto
  show ?thesis
    using ips m assms(3) first calls deny by (auto simp: js_string_def)
qed

theorem C10_anonymous_requests_share_quota_witness:
  "getClientIP anonymous_request = Some ''unknown''
   \<and> (\<exists>cache2.
         rate_calls ((0, js_string (getClientIP anonymous_request))
                     # map (\<lambda>(t, req). (t, js_string (getClientIP req)))
                         (zip [1, 2, 3, 4] (replicate 4 (anonymous_request\<lparr>body_url := None\<rparr>)))) []
           = (replicate 5 granted, cache2)
       \<and> checkRateLimit 5 (js_string (getClientIP anonymous_request)) cache2 =
           (denied 900, cache2))"
proof -
  have h1: "\<forall>req \<in> set (anonymous_request # replicate 4 (anonymous_request\<lparr>body_url := None\<rparr>) @ [anonymous_request]).
      x_forwarded_for req = None \<and> remoteAddress req = None"
    by (simp add: anonymous_request_def)
  have h2: "map_of ([] :: rate_entry nodecache) ''rate_unknown'' = None" by simp
  have h3: "length [1, 2, 3, 4 :: int] = length (replicate 4 (anonymous_request\<lparr>body_url := None\<rparr>))"
    by simp
  have h4: "int (length (replicate 4 (anonymous_request\<lparr>body_url := None\<rparr>))) = maxRequests - 1"
    by (simp add: maxRequests_def)
  have h5: "\<forall>t \<in> set ([1, 2, 3, 4] @ [5 :: int]). 0 \<le> t \<and> t - 0 \<le> windowMs"
    by (simp add: windowMs_def)
  have c: "ceilDiv (windowMs - (5 - 0)) 1000 = 900"
    by (simp add: ceilDiv_def windowMs_def)
  show ?thesis
    using C10_anonymous_requests_share_quota[OF h1 h2 h3 h4 h5] c by auto
qed

section \<open>C7: a cache hit\<close>

lemma handler_validated:
  assumes "req_method req = ''POST''" and "body_url req = Some url" and "url \<noteq> []"
    and "isAllowedDomain (parseURL env) url"
    and "checkRateLimit (arrival env) (js_string (getClientIP req)) (rateLimitCache w) = (rl, rc)"
    and "allowed rl"
  shows "handler env req w =
     (case try_block env url (w\<lparr>rateLimitCache := rc\<rparr>) of
        None \<Rightarrow> None
      | Some (Returned r c, w1) \<Rightarrow> Some (r, w1, c)
      | Some (Thrown error outputPath c, w1) \<Rightarrow>
          (let w2 = catch_cleanup c outputPath w1
           in Some (Json (fst (error_response error)) (snd (error_response error)) None
                      (Some (activeDownloads w2, maxConcurrent)), w2, c)))"
proof -
  obtain host where "parseURL env url = Some host"
    using assms(4) by (auto simp: isAllowedDomain_def split: option.splits)
  then show ?thesis using assms by (simp add: handler_def)
qed

text \<open>
  C7: a request that passes validation and the rate limiter and whose URL has a cache
  entry that has not expired and whose file exists is answered from the cached file with
  \<^verbatim>\<open>X-Cache: HIT\<close> and \<^verbatim>\<open>X-Download-Time: 0\<close>; only the rate-limit entry changes:
  \<open>activeDownloads\<close> is the same, the tool is not invoked and no file is touched.
\<close>

theorem C7_cache_hit:
  assumes "req_method req = ''POST''" and "body_url req = Some url" and "url \<noteq> []"
    and "isAllowedDomain (parseURL env) url"
    and "checkRateLimit (arrival env) (js_string (getClientIP req)) (rateLimitCache w) = (rl, rc)"
    and "allowed rl"
    and "map_of (videoCache w) (getCacheKey env url) = Some (cachedVideo, expiry)"
    and "expiry = 0 \<or> arrival env \<le> expiry"
    and "existsSync w (filePath cachedVideo)"
  shows "handler env req w =
           Some (Stream (hit_headers cachedVideo) (filePath cachedVideo),
                 w\<lparr>rateLimitCache := rc\<rparr>, None)
       \<and> map_of (hit_headers cachedVideo) ''X-Cache'' = Some ''HIT''
       \<and> map_of (hit_headers cachedVideo) ''X-Download-Time'' = Some ''0''
       \<and> activeDownloads (w\<lparr>rateLimitCache := rc\<rparr>) = activeDownloads w
       \<and> calls (w\<lparr>rateLimitCache := rc\<rparr>) = calls w
       \<and> files (w\<lparr>rateLimitCache := rc\<rparr>) = files w"
proof -
  have get: "nc_get (arrival env) (videoCache w) (getCacheKey env url) = (Some cachedVideo, videoCache w)"
    using assms(7,8) by (auto simp: nc_get_def)
  have "try_block env url (w\<lparr>rateLimitCache := rc\<rparr>) =
      Some (Returned (Stream (hit_headers cachedVideo) (filePath cachedVideo)) None, w\<lparr>rateLimitCache := rc\<rparr>)"
    using get assms(9) by (simp add: try_block_def existsSync_def)
  then show ?thesis
    using handler_validated[OF assms(1-6)] by (simp add: hit_headers_def)
qed

theorem C7_cache_hit_witness:
  "handler unavailable_env post_request cached_world =
     Some (Stream [(''Content-Type'', ''video/mp4''), (''Content-Length'', ''4096''),
                   (''Content-Disposition'', ''attachment; filename='' @ quoted ''video_1_clip.mp4''),
                   (''Cache-Control'', ''no-cache, no-store, must-revalidate''),
                   (''X-Cache'', ''HIT''), (''X-Download-Time'', ''0'')]
             ''/tmp/cached_k.mp4'',
           cached_world\<lparr>rateLimitCache :=
              [(''rate_10.0.0.7'', \<lparr>count = 1, firstRequest = 1000\<rparr>, 901000)]\<rparr>, None)
   \<and> activeDownloads cached_world = 2"
proof -
  let ?cv = "\<lparr>filePath = ''/tmp/cached_k.mp4'', filename = ''video_1_clip.mp4'',
         contentType = ''video/mp4'', video_size = 4096\<rparr>"
  have h: "req_method post_request = ''POST''" "body_url post_request = Some youtube_url"
    "youtube_url \<noteq> []" "isAllowedDomain (parseURL unavailable_env) youtube_url"
    by (simp_all add: post_request_def youtube_url_def unavailable_env_def isAllowedDomain_def
        toLowerCase_def lowerChar_def allowedDomains_def)
  have r: "checkRateLimit (arrival unavailable_env) (js_string (getClientIP post_request))
      (rateLimitCache cached_world) =
      (granted, [(''rate_10.0.0.7'', \<lparr>count = 1, firstRequest = 1000\<rparr>, 901000)])"
    by (simp add: checkRateLimit_def nc_get_def nc_put_def rate_stdTTL_def windowMs_def
        granted_def unavailable_env_def post_request_def cached_world_def idle_world_def
        js_string_def getClientIP_def remoteOrUnknown_def)
  have a: "allowed granted" by (simp add: granted_def)
  have m: "map_of (videoCache cached_world) (getCacheKey unavailable_env youtube_url) = Some (?cv, 7201000)"
    by (simp add: cached_world_def idle_world_def unavailable_env_def)
  have e: "(7201000::int) = 0 \<or> arrival unavailable_env \<le> 7201000"
    by (simp add: unavailable_env_def)
  have x: "existsSync cached_world (filePath ?cv)"
    by (simp add: existsSync_def cached_world_def idle_world_def)
  show ?thesis
    using C7_cache_hit[OF h r a m e x]
    by (simp add: hit_headers_def showInt_def digits.simps cached_world_def idle_world_def)
qed

section \<open>C8: the retry wrapper\<close>

lemma after_attempts_Suc:
  "after_attempts operation (Suc k) s = after_attempts operation k (snd (operation s))"
  using funpow_swap1[of "\<lambda>s. snd (operation s)" k s] by (simp add: after_attempts_def)

lemma after_attempts_0: "after_attempts operation 0 s = s"
  by (simp add: after_attempts_def)

lemma retry_loop_skip:
  assumes "a + n \<le> m"
    and "\<forall>j<n. isl (race t (fst (operation (after_attempts operation j s))))"
  shows "retry_loop operation m d t a e tr s =
         retry_loop operation m d t (a + n)
           (if n = 0 then e else projl (race t (fst (operation (after_attempts operation (n - 1) s)))))
           (tr @ concat (map (\<lambda>i. [Raced i t, Slept (d * int i)]) [a..<a + n]))
           (after_attempts operation n s)"
  using assms
proof (induction n arbitrary: a e tr s)
  case 0
  then show ?case by (simp add: after_attempts_0)
next
  case (Suc n)
  obtain p s' where op: "operation s = (p, s')" by (cases "operation s")
  have "isl (race t (fst (operation (after_attempts operation 0 s))))"
    using Suc.prems(2) by blast
  then obtain err where err: "race t p = Inl err"
    using op by (cases "race t p") (simp_all add: after_attempts_0)
  have lt: "a < m" "a \<le> m" using Suc.prems(1) by simp_all
  have step: "retry_loop operation m d t a e tr s =
      retry_loop operation m d t (a + 1) err (tr @ [Raced a t, Slept (d * int a)]) s'"
    using lt op err by (simp add: retry_loop_step)
  have rest: "\<forall>j<n. isl (race t (fst (operation (after_attempts operation j s'))))"
  proof (intro allI impI)
    fix j assume "j < n"
    then have "isl (race t (fst (operation (after_attempts operation (Suc j) s))))"
      using Suc.prems(2) by simp
    then show "isl (race t (fst (operation (after_attempts operation j s'))))"
      using op by (simp add: after_attempts_Suc)
  qed
  have ih: "retry_loop operation m d t (a + 1) err (tr @ [Raced a t, Slept (d * int a)]) s' =
      retry_loop operation m d t (a + 1 + n)
        (if n = 0 then err else projl (race t (fst (operation (after_attempts operation (n - 1) s')))))
        ((tr @ [Raced a t, Slept (d * int a)])
           @ concat (map (\<lambda>i. [Raced i t, Slept (d * int i)]) [a + 1..<a + 1 + n]))
        (after_attempts operation n s')"
    using Suc.prems(1) rest by (intro Suc.IH) simp_all
  have last: "(if n = 0 then err else projl (race t (fst (operation (after_attempts operation (n - 1) s')))))
      = projl (race t (fst (operation (after_attempts operation (Suc n - 1) s))))"
  proof (cases n)
    case 0
    then show ?thesis using op err by (simp add: after_attempts_0)
  next
    case (Suc n')
    then show ?thesis using op by (simp add: after_attempts_Suc)
  qed
  have tr: "(tr @ [Raced a t, Slept (d * int a)])
           @ concat (map (\<lambda>i. [Raced i t, Slept (d * int i)]) [a + 1..<a + 1 + n])
      = tr @ concat (map (\<lambda>i. [Raced i t, Slept (d * int i)]) [a..<a + Suc n])"
  proof -
    have "[a..<a + Suc n] = a # [a + 1..<a + 1 + n]"
      by (simp add: upt_conv_Cons)
    then show ?thesis by simp
  qed
  show ?case
    using step ih last tr op by (simp add: after_attempts_Suc)
qed

lemma retry_succeeds_at:
  assumes "1 \<le> k" and "k \<le> m"
    and "\<forall>i. 1 \<le> i \<and> i < k \<longrightarrow> isl (attempt_result operation t i s)"
    and "attempt_result operation t k s = Inr v"
  shows "retryOperation operation m d t s =
           (Inr v, attempts_trace d t k, after_attempts operation k s)"
proof -
  obtain n where k: "k = Suc n" using assms(1) by (cases k) simp_all
  have fails: "\<forall>j<n. isl (race t (fst (operation (after_attempts operation j s))))"
  proof (intro allI impI)
    fix j assume "j < n"
    then have "isl (attempt_result operation t (Suc j) s)" using assms(3) k by simp
    then show "isl (race t (fst (operation (after_attempts operation j s))))"
      by (simp add: attempt_result_def)
  qed
  have skip: "retry_loop operation m d t 1 Undefined [] s =
      retry_loop operation m d t k
        (if n = 0 then Undefined else projl (race t (fst (operation (after_attempts operation (n - 1) s)))))
        (concat (map (\<lambda>i. [Raced i t, Slept (d * int i)]) [1..<k]))
        (after_attempts operation n s)"
    using retry_loop_skip[of 1 n m t operation s d Undefined "[]"] fails assms(2) k by simp
  obtain p s' where op: "operation (after_attempts operation n s) = (p, s')"
    by (cases "operation (after_attempts operation n s)")
  have win: "race t p = Inr v" using assms(4) op k by (simp add: attempt_result_def)
  have s': "s' = after_attempts operation k s"
    using op k by (simp add: after_attempts_def)
  show ?thesis
    unfolding retryOperation_def skip
    using assms(2) op win s' by (simp add: retry_loop_step attempts_trace_def)
qed

lemma retry_fails_at_last:
  assumes "1 \<le> m"
    and "\<forall>i. 1 \<le> i \<and> i < m \<longrightarrow> isl (attempt_result operation t i s)"
    and "attempt_result operation t m s = Inl e"
  shows "retryOperation operation m d t s =
           (Inl e, attempts_trace d t m, after_attempts operation m s)"
proof -
  obtain n where m: "m = Suc n" using assms(1) by (cases m) simp_all
  have fails: "\<forall>j<n. isl (race t (fst (operation (after_attempts operation j s))))"
  proof (intro allI impI)
    fix j assume "j < n"
    then have "isl (attempt_result operation t (Suc j) s)" using assms(2) m by simp
    then show "isl (race t (fst (operation (after_attempts operation j s))))"
      by (simp add: attempt_result_def)
  qed
  have skip: "retry_loop operation m d t 1 Undefined [] s =
      retry_loop operation m d t m
        (if n = 0 then Undefined else projl (race t (fst (operation (after_attempts operation (n - 1) s)))))
        (concat (map (\<lambda>i. [Raced i t, Slept (d * int i)]) [1..<m]))
        (after_attempts operation n s)"
    using retry_loop_skip[of 1 n m t operation s d Undefined "[]"] fails m by simp
  obtain p s' where op: "operation (after_attempts operation n s) = (p, s')"
    by (cases "operation (after_attempts operation n s)")
  have lose: "race t p = Inl e" using assms(3) op m by (simp add: attempt_result_def)
  have s': "s' = after_attempts operation m s"
    using op m by (simp add: after_attempts_def)
  show ?thesis
    unfolding retryOperation_def skip
    using op lose s' by (simp add: retry_loop_step retry_loop_done attempts_trace_def)
qed

text \<open>
  C8: every attempt is raced against a timer of \<open>timeoutMs\<close> of its own (the event
  \<open>Raced i timeoutMs\<close>); an operation that settles only when the timer has fired, or
  never, counts as failed with the error \<^verbatim>\<open>Operation timed out\<close>; after a failed attempt
  \<open>i\<close> that is not the last one the wrapper sleeps \<open>delay * i\<close>; when attempt \<open>k\<close> is
  the first to succeed its value is returned, and when all \<open>m\<close> attempts fail the error of
  the last attempt is thrown as it is.
\<close>

theorem C8_retry_with_timeout:
  assumes "1 \<le> k" and "k \<le> m"
    and "\<forall>i. 1 \<le> i \<and> i < k \<longrightarrow> isl (attempt_result operation timeoutMs i s)"
  shows "race timeoutMs (Never :: 'a promise) = Inl (Error ''Operation timed out'')
       \<and> (timeoutMs \<le> d \<longrightarrow>
            race timeoutMs (Resolves d (v :: 'a)) = Inl (Error ''Operation timed out'')
            \<and> race timeoutMs (Rejects d e :: 'a promise) = Inl (Error ''Operation timed out''))
       \<and> (d < timeoutMs \<longrightarrow>
            race timeoutMs (Resolves d v) = Inr v
            \<and> race timeoutMs (Rejects d e :: 'a promise) = Inl e)
       \<and> (attempt_result operation timeoutMs k s = Inr v \<longrightarrow>
            retryOperation operation m delay timeoutMs s =
              (Inr v, attempts_trace delay timeoutMs k, after_attempts operation k s))
       \<and> (k = m \<and> attempt_result operation timeoutMs m s = Inl e \<longrightarrow>
            retryOperation operation m delay timeoutMs s =
              (Inl e, attempts_trace delay timeoutMs m, after_attempts operation m s))"
  using assms retry_succeeds_at[OF assms, of v delay] retry_fails_at_last[of m operation timeoutMs s e delay]
  by (auto simp: race_def)

theorem C8_retry_with_timeout_witness:
  "retryOperation flaky 3 3000 300000 0 =
     (Inr (), [Raced 1 300000, Slept 3000, Raced 2 300000, Slept 6000, Raced 3 300000], 3)
   \<and> retryOperation flaky 2 3000 300000 0 =
     (Inl (Error ''boom''), [Raced 1 300000, Slept 3000, Raced 2 300000], 2)"
proof -
  have a: "after_attempts flaky 0 0 = 0" "after_attempts flaky 1 0 = 1" "after_attempts flaky 2 0 = 2"
    "after_attempts flaky 3 0 = 3"
    by (simp_all add: after_attempts_def flaky_def numeral_2_eq_2 numeral_3_eq_3)
  have r: "attempt_result flaky 300000 1 0 = Inl (Error ''Operation timed out'')"
    "attempt_result flaky 300000 2 0 = Inl (Error ''boom'')"
    "attempt_result flaky 300000 3 0 = Inr ()"
    using a by (simp_all add: attempt_result_def flaky_def race_def)
  have h3: "\<forall>i. 1 \<le> i \<and> i < 3 \<longrightarrow> isl (attempt_result flaky 300000 i 0)"
  proof (intro allI impI)
    fix i :: nat assume "1 \<le> i \<and> i < 3"
    then have "i = 1 \<or> i = 2" by auto
    then show "isl (attempt_result flaky 300000 i 0)" using r by auto
  qed
  have h2: "\<forall>i. 1 \<le> i \<and> i < 2 \<longrightarrow> isl (attempt_result flaky 300000 i 0)"
    using h3 by simp
  have t: "attempts_trace 3000 300000 3 = [Raced 1 300000, Slept 3000, Raced 2 300000, Slept 6000, Raced 3 300000]"
    "attempts_trace 3000 300000 2 = [Raced 1 300000, Slept 3000, Raced 2 300000]"
    by (simp_all add: attempts_trace_def upt_rec[of 1] upt_rec[of 2] upt_rec[of 3] upt_rec[of "Suc 0"] upt_rec[of "Suc (Suc 0)"])
  show ?thesis
    using C8_retry_with_timeout[of 3 3 flaky 300000 0 0 "()" "Error ''x''" 3000, OF _ _ h3]
          C8_retry_with_timeout[of 2 2 flaky 300000 0 0 "()" "Error ''boom''" 3000, OF _ _ h2]
          r t a
    by simp
qed

section \<open>What the handler does to the state, case by case\<close>

lemma after_attempts_step:
  "after_attempts operation (Suc k) s = snd (operation (after_attempts operation k s))"
  by (simp add: after_attempts_def)

lemma retry_loop_final_state:
  "\<exists>n. n \<le> m + 1 - a \<and>
       snd (snd (retry_loop operation m d t a e tr s)) = after_attempts operation n s"
proof (induction operation m d t a e tr s rule: retry_loop.induct)
  case (1 operation m d t a e tr s)
  show ?case
  proof (cases "a \<le> m")
    case False
    then show ?thesis
      by (intro exI[of _ 0]) (simp add: retry_loop_done after_attempts_0)
  next
    case True
    obtain p s' where op: "operation s = (p, s')" by (cases "operation s")
    show ?thesis
    proof (cases "race t p")
      case (Inr v)
      then show ?thesis
        using retry_loop_step[OF True, of operation d t e tr s] op True
        by (intro exI[of _ 1]) (simp add: after_attempts_def)
    next
      case (Inl err)
      have "\<exists>n. n \<le> m + 1 - (a + 1) \<and>
          snd (snd (retry_loop operation m d t (a + 1) err
                 (if a < m then tr @ [Raced a t, Slept (d * int a)] else tr @ [Raced a t]) s'))
            = after_attempts operation n s'"
        using "1.IH"[OF True op[symmetric] Inl] by (cases "a < m") simp_all
      then obtain n where n: "n \<le> m + 1 - (a + 1)"
        and fin: "snd (snd (retry_loop operation m d t (a + 1) err
                 (if a < m then tr @ [Raced a t, Slept (d * int a)] else tr @ [Raced a t]) s'))
            = after_attempts operation n s'"
        by blast
      have "retry_loop operation m d t a e tr s =
          retry_loop operation m d t (a + 1) err
            (if a < m then tr @ [Raced a t, Slept (d * int a)] else tr @ [Raced a t]) s'"
        using retry_loop_step[OF True, of operation d t e tr s] op Inl by simp
      then have "snd (snd (retry_loop operation m d t a e tr s)) = after_attempts operation (Suc n) s"
        using op fin by (simp add: after_attempts_Suc)
      then show ?thesis using n True by (intro exI[of _ "Suc n"]) simp
    qed
  qed
qed

lemma retryOperation_final_state:
  "\<exists>n \<le> m. snd (snd (retryOperation operation m d t s)) = after_attempts operation n s"
  using retry_loop_final_state[of m 1 operation d t Undefined "[]" s]
  by (auto simp: retryOperation_def)

lemma after_attempts_keeps:
  assumes "\<And>s. P s \<Longrightarrow> P (snd (operation s))" and "P s"
  shows "P (after_attempts operation n s)"
  by (induction n) (simp_all add: after_attempts_0 after_attempts_step assms)

lemma download_attempt_calls:
  "calls (snd (download_attempt env w)) =
     calls w @ (if format_unavailable env w then [primary_format, fallback_format]
                else [primary_format])"
  by (simp add: download_attempt_def invoke_def format_unavailable_def Let_def
      split: option.splits prod.splits)

lemma formats_differ: "primary_format \<noteq> fallback_format"
  by (simp add: primary_format_def fallback_format_def)

lemma download_attempt_fallbacks:
  "count_list (calls (snd (download_attempt env w))) fallback_format =
     count_list (calls w) fallback_format + (if format_unavailable env w then 1 else 0)"
  by (simp add: download_attempt_calls formats_differ)

lemma after_attempts_fallbacks:
  "count_list (calls (after_attempts (download_attempt env) n w)) fallback_format
     \<le> count_list (calls w) fallback_format + n"
proof (induction n)
  case 0
  then show ?case by (simp add: after_attempts_0)
next
  case (Suc n)
  then show ?case
    by (simp add: after_attempts_step download_attempt_fallbacks)
qed

lemma retryOperation_fallbacks:
  "count_list (calls (snd (snd (retryOperation (download_attempt env) m d t w)))) fallback_format
     \<le> count_list (calls w) fallback_format + m"
proof -
  obtain n where le: "n \<le> m"
    and eq: "snd (snd (retryOperation (download_attempt env) m d t w)) = after_attempts (download_attempt env) n w"
    using retryOperation_final_state[of m "download_attempt env" d t w] by auto
  show ?thesis
    unfolding eq using after_attempts_fallbacks[of env n w] le by linarith
qed

lemma handler_cases:
  assumes "handler env req w = Some (r, w', c)"
  obtains (rejected) "w' = w" and "c = None"
  | (limited) rc where "w' = w\<lparr>rateLimitCache := rc\<rparr>" and "c = None"
  | (returned) url rc where
      "try_block env url (w\<lparr>rateLimitCache := rc\<rparr>) = Some (Returned r c, w')"
      and "body_url req = Some url"
  | (thrown) url rc error outputPath w1 where
      "try_block env url (w\<lparr>rateLimitCache := rc\<rparr>) = Some (Thrown error outputPath c, w1)"
      and "w' = catch_cleanup c outputPath w1"
      and "r = Json (fst (error_response error)) (snd (error_response error)) None
                 (Some (activeDownloads w', maxConcurrent))"
      and "body_url req = Some url"
  using assms
  by (auto simp: handler_def Let_def
      split: if_splits option.splits prod.splits outcome.splits)

lemma try_block_cases:
  assumes "try_block env url w = Some (out, w')"
  obtains (hit) cachedVideo where
      "nc_get (arrival env) (videoCache w) (getCacheKey env url) = (Some cachedVideo, videoCache w')"
      and "w' = w\<lparr>videoCache := videoCache w'\<rparr>"
      and "existsSync w (filePath cachedVideo)"
      and "out = Returned (Stream (hit_headers cachedVideo) (filePath cachedVideo)) None"
  | (miss) vc where
      "vc = snd (nc_get (arrival env) (videoCache w) (getCacheKey env url))"
      and "miss_path env (getCacheKey env url) (w\<lparr>videoCache := vc\<rparr>) = Some (out, w')"
  using assms
  by (auto simp: try_block_def existsSync_def split: if_splits option.splits prod.splits)

lemma miss_path_cases:
  assumes "miss_path env cacheKey w = Some (out, w')"
  obtains (busy) error slept where
      "waitForSlot (arrival env) (activeDownloads w) (wakeups env) = Some (Inl error, slept)"
      and "out = Thrown error None None" and "w' = w"
  | (failed) active slept error tr where
      "waitForSlot (arrival env) (activeDownloads w) (wakeups env) = Some (Inr active, slept)"
      and "retryOperation (download_attempt env) config_maxRetries config_retryDelay
             config_downloadTimeoutMs (w\<lparr>activeDownloads := active + interleaved env + 1\<rparr>)
           = (Inl error, tr, w')"
      and "out = Thrown error None None"
  | (extracted) active slept tr w2 where
      "waitForSlot (arrival env) (activeDownloads w) (wakeups env) = Some (Inr active, slept)"
      and "retryOperation (download_attempt env) config_maxRetries config_retryDelay
             config_downloadTimeoutMs (w\<lparr>activeDownloads := active + interleaved env + 1\<rparr>)
           = (Inr (), tr, w2)"
      and "finish_download env cacheKey w2 = (out, w')"
  using assms
  by (auto simp: miss_path_def split: option.splits sum.splits prod.splits)

lemma cache_download_calls: "calls (cache_download env k p entry w) = calls w"
  by (simp add: cache_download_def Let_def split: sum.splits)

lemma finish_download_calls: "calls (snd (finish_download env k w)) = calls w"
  by (simp add: finish_download_def Let_def cache_download_calls split: option.splits)

lemma unlinkSync_calls: "unlinkSync p w = Inr w' \<Longrightarrow> calls w' = calls w"
  by (auto simp: unlinkSync_def split: if_splits)

lemma cleanup_calls: "calls (snd (cleanup c w)) = calls w"
  by (auto simp: cleanup_def Let_def unlinkSync_calls split: sum.splits)

lemma catch_cleanup_calls: "calls (catch_cleanup c p w) = calls w"
  by (auto simp: catch_cleanup_def cleanup_calls unlinkSync_calls split: option.splits sum.splits)

lemma miss_path_fallbacks:
  assumes "miss_path env k w = Some (out, w')"
  shows "count_list (calls w') fallback_format
           \<le> count_list (calls w) fallback_format + config_maxRetries"
  using assms
proof (cases rule: miss_path_cases)
  case (busy error slept)
  then show ?thesis by simp
next
  case (failed active slept error tr)
  then show ?thesis
    using retryOperation_fallbacks[of env config_maxRetries config_retryDelay
        config_downloadTimeoutMs "w\<lparr>activeDownloads := active + interleaved env + 1\<rparr>"]
    by simp
next
  case (extracted active slept tr w2)
  have "calls w' = calls w2"
    using finish_download_calls[of env k w2] extracted(3) by simp
  then show ?thesis
    using retryOperation_fallbacks[of env config_maxRetries config_retryDelay
        config_downloadTimeoutMs "w\<lparr>activeDownloads := active + interleaved env + 1\<rparr>"] extracted(2)
    by simp
qed

lemma try_block_fallbacks:
  assumes "try_block env url w = Some (out, w')"
  shows "count_list (calls w') fallback_format
           \<le> count_list (calls w) fallback_format + config_maxRetries"
  using assms
proof (cases rule: try_block_cases)
  case (hit cachedVideo)
  have "calls w' = calls (w\<lparr>videoCache := videoCache w'\<rparr>)" using hit(2) by simp
  then show ?thesis by simp
next
  case (miss vc)
  then show ?thesis using miss_path_fallbacks[OF miss(2)] by simp
qed

lemma handler_fallbacks:
  assumes "handler env req w = Some (r, w', c)"
  shows "count_list (calls w') fallback_format
           \<le> count_list (calls w) fallback_format + config_maxRetries"
  using assms
proof (cases rule: handler_cases)
  case rejected
  then show ?thesis by simp
next
  case (limited rc)
  then show ?thesis by simp
next
  case (returned url rc)
  then show ?thesis using try_block_fallbacks[OF returned(1)] by simp
next
  case (thrown url rc error outputPath w1)
  then show ?thesis
    using try_block_fallbacks[OF thrown(1)] by (simp add: catch_cleanup_calls)
qed

lemma attempts_trace_1: "attempts_trace d t (Suc 0) = [Raced (Suc 0) t]"
  by (simp add: attempts_trace_def)

lemma after_attempts_1: "after_attempts operation (Suc 0) s = snd (operation s)"
  by (simp add: after_attempts_def)

lemma first_fallback_succeeds:
  assumes "format_unavailable env w"
    and "failure (youtubedl env (Suc (length (calls w))) fallback_format) = None"
    and "took (youtubedl env (length (calls w)) primary_format)
         + took (youtubedl env (Suc (length (calls w))) fallback_format) < config_downloadTimeoutMs"
  shows "retryOperation (download_attempt env) config_maxRetries config_retryDelay
           config_downloadTimeoutMs w =
           (Inr (), [Raced 1 config_downloadTimeoutMs], snd (download_attempt env w))"
proof -
  have "fst (download_attempt env w) =
      Resolves (took (youtubedl env (length (calls w)) primary_format)
         + took (youtubedl env (Suc (length (calls w))) fallback_format)) ()"
    using assms(1,2)
    by (auto simp: download_attempt_def invoke_def format_unavailable_def Let_def
        split: option.splits)
  then have "attempt_result (download_attempt env) config_downloadTimeoutMs 1 w = Inr ()"
    using assms(3) by (simp add: attempt_result_def after_attempts_0 race_def)
  then show ?thesis
    using retry_succeeds_at[of 1 config_maxRetries "download_attempt env"
        config_downloadTimeoutMs w "()" config_retryDelay]
    by (simp add: config_maxRetries_def attempts_trace_1 after_attempts_1)
qed

section \<open>C4: the fallback format\<close>

text \<open>
  C4, as the code has it: each attempt of the retry wrapper invokes the tool with the
  primary format and, exactly when that invocation fails with a message containing
  \<^verbatim>\<open>Requested format is not available\<close>, once more with \<^verbatim>\<open>best\<close>. The fallback is part
  of the operation the wrapper retries, so a request makes at most one fallback invocation
  per attempt and at most \<open>maxRetries = 2\<close> in all; it makes exactly one when the first
  fallback resolves before the timeout.
\<close>

theorem C4_fallback_in_every_attempt:
  "calls (snd (download_attempt env w)) =
     calls w @ (if format_unavailable env w then [primary_format, fallback_format]
                else [primary_format])
   \<and> count_list (calls (snd (snd (retryOperation (download_attempt env) config_maxRetries
          config_retryDelay config_downloadTimeoutMs w)))) fallback_format
       \<le> count_list (calls w) fallback_format + config_maxRetries
   \<and> config_maxRetries = 2
   \<and> (handler env req w = Some (r, w', c) \<longrightarrow>
        count_list (calls w') fallback_format
          \<le> count_list (calls w) fallback_format + config_maxRetries)
   \<and> (format_unavailable env w
        \<and> failure (youtubedl env (Suc (length (calls w))) fallback_format) = None
        \<and> took (youtubedl env (length (calls w)) primary_format)
           + took (youtubedl env (Suc (length (calls w))) fallback_format) < config_downloadTimeoutMs
        \<longrightarrow> retryOperation (download_attempt env) config_maxRetries config_retryDelay
              config_downloadTimeoutMs w =
              (Inr (), [Raced 1 config_downloadTimeoutMs], snd (download_attempt env w))
            \<and> calls (snd (download_attempt env w)) =
                calls w @ [primary_format, fallback_format])"
proof -
  have a: "calls (snd (download_attempt env w)) =
      calls w @ (if format_unavailable env w then [primary_format, fallback_format]
                 else [primary_format])"
    by (rule download_attempt_calls)
  have b: "count_list (calls (snd (snd (retryOperation (download_attempt env) config_maxRetries
          config_retryDelay config_downloadTimeoutMs w)))) fallback_format
       \<le> count_list (calls w) fallback_format + config_maxRetries"
    by (rule retryOperation_fallbacks)
  have c: "config_maxRetries = 2"
    by (simp add: config_maxRetries_def)
  have d: "handler env req w = Some (r, w', c) \<longrightarrow>
        count_list (calls w') fallback_format
          \<le> count_list (calls w) fallback_format + config_maxRetries"
    using handler_fallbacks[of env req w r w' c] by blast
  have e: "format_unavailable env w
        \<and> failure (youtubedl env (Suc (length (calls w))) fallback_format) = None
        \<and> took (youtubedl env (length (calls w)) primary_format)
           + took (youtubedl env (Suc (length (calls w))) fallback_format) < config_downloadTimeoutMs
        \<longrightarrow> retryOperation (download_attempt env) config_maxRetries config_retryDelay
              config_downloadTimeoutMs w =
              (Inr (), [Raced 1 config_downloadTimeoutMs], snd (download_attempt env w))
            \<and> calls (snd (download_attempt env w)) =
                calls w @ [primary_format, fallback_format]"
    using first_fallback_succeeds[of env w] a by auto
  from a b c d e show ?thesis by blast
qed


theorem C4_fallback_in_every_attempt_witness:
  "format_unavailable instagram_env idle_world
   \<and> retryOperation (download_attempt instagram_env) config_maxRetries config_retryDelay
        config_downloadTimeoutMs idle_world =
        (Inr (), [Raced 1 config_downloadTimeoutMs],
         idle_world\<lparr>files := [(''/tmp/video_1001_reel.mp4'', 4096)],
                    calls := [primary_format, fallback_format]\<rparr>)"
proof -
  have h: "format_unavailable instagram_env idle_world"
    by (simp add: format_unavailable_def instagram_env_def unavailable_env_def idle_world_def
        primary_format_def fallback_format_def)
  have f: "failure (youtubedl instagram_env (Suc (length (calls idle_world))) fallback_format) = None"
    by (simp add: instagram_env_def unavailable_env_def)
  have t: "took (youtubedl instagram_env (length (calls idle_world)) primary_format)
         + took (youtubedl instagram_env (Suc (length (calls idle_world))) fallback_format)
         < config_downloadTimeoutMs"
    by (simp add: instagram_env_def unavailable_env_def config_downloadTimeoutMs_def
        primary_format_def fallback_format_def)
  have w: "snd (download_attempt instagram_env idle_world) =
      idle_world\<lparr>files := [(''/tmp/video_1001_reel.mp4'', 4096)],
                    calls := [primary_format, fallback_format]\<rparr>"
    by (simp add: download_attempt_def invoke_def instagram_env_def unavailable_env_def
        idle_world_def write_files_def primary_format_def fallback_format_def)
  show ?thesis
    using C4_fallback_in_every_attempt[of instagram_env idle_world] h f t w
    by simp
qed


text \<open>
  C4 as stated fails when the fallback fails too: the wrapper runs the operation again,
  and the request invokes the tool four times, twice with \<^verbatim>\<open>best\<close>.
\<close>

theorem C4_two_fallbacks_counterexample:
  "handler no_format_env post_request idle_world =
     Some (Json 500 ''Download failed'' None (Some (1, 3)),
           idle_world
             \<lparr>rateLimitCache :=
                [(''rate_10.0.0.7'', \<lparr>count = 1, firstRequest = 1000\<rparr>, 901000)],
              activeDownloads := 1,
              calls := [primary_format, fallback_format, primary_format, fallback_format]\<rparr>,
           None)
   \<and> count_list [primary_format, fallback_format, primary_format, fallback_format]
        fallback_format = 2"
  by (simp add: handler_eval no_format_env_def unavailable_env_def post_request_def
      idle_world_def youtube_url_def)

section \<open>C5: a cache entry whose file is gone\<close>

lemma download_attempt_videoCache: "videoCache (snd (download_attempt env w)) = videoCache w"
  by (simp add: download_attempt_def invoke_def Let_def split: option.splits prod.splits)

lemma retryOperation_videoCache:
  "videoCache (snd (snd (retryOperation (download_attempt env) m d t w))) = videoCache w"
proof -
  obtain n where eq: "snd (snd (retryOperation (download_attempt env) m d t w))
      = after_attempts (download_attempt env) n w"
    using retryOperation_final_state[of m "download_attempt env" d t w] by auto
  have "videoCache (after_attempts (download_attempt env) n w) = videoCache w"
    by (rule after_attempts_keeps[where P = "\<lambda>s. videoCache s = videoCache w"])
       (simp_all add: download_attempt_videoCache)
  then show ?thesis unfolding eq .
qed

lemma finish_download_thrown:
  "finish_download env k w = (Thrown error p c, w') \<Longrightarrow> w' = w"
  by (auto simp: finish_download_def Let_def split: option.splits if_splits)

lemma cache_download_key:
  "map_of (videoCache w) k \<noteq> None \<Longrightarrow> map_of (videoCache (cache_download env k p entry w)) k \<noteq> None"
  by (auto simp: cache_download_def Let_def nc_set_def nc_put_def update_conv' split: sum.splits if_splits)

lemma finish_download_world:
  "snd (finish_download env k w) = w
   \<or> (\<exists>p entry. snd (finish_download env k w) = cache_download env k p entry w)"
  by (auto simp: finish_download_def Let_def split: option.splits)

lemma finish_download_key:
  assumes "map_of (videoCache w) k \<noteq> None"
  shows "map_of (videoCache (snd (finish_download env k w))) k \<noteq> None"
  using finish_download_world[of env k w] cache_download_key[OF assms, of env] assms
  by metis

lemma unlinkSync_videoCache: "unlinkSync p w = Inr w' \<Longrightarrow> videoCache w' = videoCache w"
  by (auto simp: unlinkSync_def split: if_splits)

lemma cleanup_videoCache: "videoCache (snd (cleanup c w)) = videoCache w"
  by (auto simp: cleanup_def Let_def unlinkSync_videoCache split: sum.splits)

lemma catch_cleanup_videoCache: "videoCache (catch_cleanup c p w) = videoCache w"
  by (auto simp: catch_cleanup_def cleanup_videoCache unlinkSync_videoCache
      split: option.splits sum.splits)

lemma miss_path_key:
  assumes "miss_path env k w = Some (out, w')" and "map_of (videoCache w) k \<noteq> None"
  shows "map_of (videoCache w') k \<noteq> None"
  using assms(1)
proof (cases rule: miss_path_cases)
  case (busy error slept)
  then show ?thesis using assms(2) by simp
next
  case (failed active slept error tr)
  have "videoCache w' = videoCache (w\<lparr>activeDownloads := active + interleaved env + 1\<rparr>)"
    using retryOperation_videoCache[of env config_maxRetries config_retryDelay
        config_downloadTimeoutMs "w\<lparr>activeDownloads := active + interleaved env + 1\<rparr>"] failed(2) by simp
  then show ?thesis using assms(2) by simp
next
  case (extracted active slept tr w2)
  have "videoCache w2 = videoCache (w\<lparr>activeDownloads := active + interleaved env + 1\<rparr>)"
    using retryOperation_videoCache[of env config_maxRetries config_retryDelay
        config_downloadTimeoutMs "w\<lparr>activeDownloads := active + interleaved env + 1\<rparr>"] extracted(2) by simp
  then have "map_of (videoCache w2) k \<noteq> None" using assms(2) by simp
  then show ?thesis using finish_download_key[of w2 k env] extracted(3) by simp
qed

lemma miss_path_thrown:
  assumes "miss_path env k w = Some (Thrown error p c, w')"
  shows "videoCache w' = videoCache w"
  using assms
proof (cases rule: miss_path_cases)
  case (busy error slept)
  then show ?thesis by simp
next
  case (failed active slept error tr)
  then show ?thesis
    using retryOperation_videoCache[of env config_maxRetries config_retryDelay
        config_downloadTimeoutMs "w\<lparr>activeDownloads := active + interleaved env + 1\<rparr>"] by simp
next
  case (extracted active slept tr w2)
  have "w' = w2" using finish_download_thrown[OF extracted(3)] .
  then show ?thesis
    using retryOperation_videoCache[of env config_maxRetries config_retryDelay
        config_downloadTimeoutMs "w\<lparr>activeDownloads := active + interleaved env + 1\<rparr>"] extracted(2) by simp
qed

lemma stale_lookup:
  assumes "map_of (videoCache w) (getCacheKey env url) = Some (cachedVideo, expiry)"
    and "expiry = 0 \<or> arrival env \<le> expiry"
  shows "nc_get (arrival env) (videoCache w) (getCacheKey env url) = (Some cachedVideo, videoCache w)"
  using assms by (auto simp: nc_get_def)

lemma stale_try_block:
  assumes "map_of (videoCache w) (getCacheKey env url) = Some (cachedVideo, expiry)"
    and "expiry = 0 \<or> arrival env \<le> expiry"
    and "\<not> existsSync w (filePath cachedVideo)"
  shows "try_block env url w = miss_path env (getCacheKey env url) w"
  using stale_lookup[OF assms(1,2)] assms(3)
  by (simp add: try_block_def existsSync_def)


lemma stale_handler_key:
  assumes "map_of (videoCache w) (getCacheKey env url) = Some (cachedVideo, expiry)"
    and "body_url req = Some url"
    and "handler env req w = Some (r, w', c)"
    and "expiry = 0 \<or> arrival env \<le> expiry"
  shows "map_of (videoCache w') (getCacheKey env url) \<noteq> None"
  using assms(3)
proof (cases rule: handler_cases)
  case rejected
  then show ?thesis using assms(1) by simp
next
  case (limited rc)
  then show ?thesis using assms(1) by simp
next
  case (returned url' rc)
  then have tb: "try_block env url (w\<lparr>rateLimitCache := rc\<rparr>) = Some (Returned r c, w')"
    using assms(2) by simp
  show ?thesis
    using tb
  proof (cases rule: try_block_cases)
    case (hit cv)
    then show ?thesis
      using assms(1,4) by (auto simp: nc_get_def split: if_splits)
  next
    case (miss vc)
    have "map_of vc (getCacheKey env url) \<noteq> None"
      using assms(1,4) miss(1) by (auto simp: nc_get_def)
    then show ?thesis using miss_path_key[OF miss(2)] by simp
  qed
next
  case (thrown url' rc error outputPath w1)
  then have tb: "try_block env url (w\<lparr>rateLimitCache := rc\<rparr>) = Some (Thrown error outputPath c, w1)"
    using assms(2) by simp
  have "map_of (videoCache w1) (getCacheKey env url) \<noteq> None"
    using tb
  proof (cases rule: try_block_cases)
    case (hit cv)
    then show ?thesis by simp
  next
    case (miss vc)
    have "map_of vc (getCacheKey env url) \<noteq> None"
      using assms(1,4) miss(1) by (auto simp: nc_get_def)
    then show ?thesis using miss_path_key[OF miss(2)] by simp
  qed
  then show ?thesis using thrown(2) by (simp add: catch_cleanup_videoCache)
qed

text \<open>
  C5, as the code has it: when the cache holds an unexpired entry for the key and its
  file no longer exists, the lookup behaves as a miss (the request goes on to admission
  and extraction), and the entry stays in the cache: the lookup leaves the cache as it
  is, a request that fails leaves it as it is, and after any request for the URL the key
  is still cached (the dead entry, or the entry a successful download stored over it), so
  a later lookup finds the entry again and checks the file again.
\<close>

theorem C5_stale_entry_is_a_miss_and_stays:
  assumes "map_of (videoCache w) (getCacheKey env url) = Some (cachedVideo, expiry)"
    and "expiry = 0 \<or> arrival env \<le> expiry"
    and "\<not> existsSync w (filePath cachedVideo)"
  shows "try_block env url w = miss_path env (getCacheKey env url) w
       \<and> nc_get (arrival env) (videoCache w) (getCacheKey env url) = (Some cachedVideo, videoCache w)
       \<and> (try_block env url w = Some (out, w1) \<longrightarrow>
            map_of (videoCache w1) (getCacheKey env url) \<noteq> None)
       \<and> (try_block env url w = Some (Thrown error p c, w2) \<longrightarrow> videoCache w2 = videoCache w)
       \<and> (body_url req = Some url \<and> handler env req w = Some (r, w3, c3) \<longrightarrow>
            map_of (videoCache w3) (getCacheKey env url) \<noteq> None)"
proof -
  have a: "try_block env url w = miss_path env (getCacheKey env url) w"
    using assms by (rule stale_try_block)
  have b: "nc_get (arrival env) (videoCache w) (getCacheKey env url) = (Some cachedVideo, videoCache w)"
    using assms(1,2) by (rule stale_lookup)
  have k: "map_of (videoCache w) (getCacheKey env url) \<noteq> None"
    using assms(1) by simp
  have c: "try_block env url w = Some (out, w1) \<longrightarrow>
            map_of (videoCache w1) (getCacheKey env url) \<noteq> None"
    unfolding a using miss_path_key[of env "getCacheKey env url" w out w1] k by blast
  have d: "try_block env url w = Some (Thrown error p c, w2) \<longrightarrow> videoCache w2 = videoCache w"
    unfolding a using miss_path_thrown[of env "getCacheKey env url" w error p c w2] by blast
  have e: "body_url req = Some url \<and> handler env req w = Some (r, w3, c3) \<longrightarrow>
            map_of (videoCache w3) (getCacheKey env url) \<noteq> None"
    using stale_handler_key[OF assms(1) _ _ assms(2), of req r w3 c3] by blast
  from a b c d e show ?thesis by blast
qed

theorem C5_stale_entry_is_a_miss_and_stays_witness:
  "\<not> existsSync stale_world (filePath stale_entry)
   \<and> try_block unavailable_env youtube_url stale_world = miss_path unavailable_env ''k'' stale_world
   \<and> nc_get 1000 (videoCache stale_world) ''k'' = (Some stale_entry, videoCache stale_world)"
proof -
  have h1: "map_of (videoCache stale_world) (getCacheKey unavailable_env youtube_url)
      = Some (stale_entry, 7201000)"
    by (simp add: stale_world_def idle_world_def unavailable_env_def)
  have h2: "(7201000 :: int) = 0 \<or> arrival unavailable_env \<le> 7201000"
    by (simp add: unavailable_env_def)
  have h3: "\<not> existsSync stale_world (filePath stale_entry)"
    by (simp add: existsSync_def stale_world_def idle_world_def)
  have e: "getCacheKey unavailable_env youtube_url = ''k''" "arrival unavailable_env = 1000"
    by (simp_all add: unavailable_env_def)
  show ?thesis
    using C5_stale_entry_is_a_miss_and_stays[OF h1 h2 h3] h3 e by simp
qed


text \<open>
  C5 as stated fails in its second half: after a request that met the dead entry (and
  whose extraction failed) the entry is still in \<^verbatim>\<open>videoCache\<close>, and the next
  \<^verbatim>\<open>get\<close> for the key returns it.
\<close>

theorem C5_stale_entry_kept_counterexample:
  "handler unavailable_env post_request stale_world =
     Some (Json 404 ''Video is unavailable or private'' None (Some (1, 3)),
           \<lparr>rateLimitCache =
              [(''rate_10.0.0.7'', \<lparr>count = 1, firstRequest = 1000\<rparr>, 901000)],
            videoCache = [(''k'', stale_entry, 7201000)],
            activeDownloads = 1,
            files = [(''/tmp/video_1001_clip.mp4.part'', 4096)],
            undeletable = [],
            calls = [primary_format, primary_format]\<rparr>,
           None)
   \<and> nc_get 2000 [(''k'', stale_entry, 7201000)] ''k''
       = (Some stale_entry, [(''k'', stale_entry, 7201000)])"
  by (simp add: handler_eval unavailable_env_def post_request_def stale_world_def
      stale_entry_def idle_world_def youtube_url_def)

section \<open>The increment after the wait\<close>

text \<open>
  What the handler adds to the counter is one, on top of the counter as it stands when the
  handler resumes after \<^verbatim>\<open>await waitForSlot()\<close>. A request that reads 2 in the loop test,
  and resumes after another request that read the same 2 has incremented, brings the
  counter to 4 and reports it so.
\<close>

lemma increment_after_await_example:
  "handler racing_env post_request two_active_world =
     Some (Json 404 ''Video is unavailable or private'' None (Some (4, 3)),
           \<lparr>rateLimitCache =
              [(''rate_10.0.0.7'', \<lparr>count = 1, firstRequest = 1000\<rparr>, 901000)],
            videoCache = [],
            activeDownloads = 4,
            files = [(''/tmp/video_1001_clip.mp4.part'', 4096)],
            undeletable = [],
            calls = [primary_format, primary_format]\<rparr>,
           None)"
  by (simp add: handler_eval racing_env_def two_active_world_def unavailable_env_def
      post_request_def idle_world_def youtube_url_def)

section \<open>C2: the wait for a slot\<close>




















end
